theory Spec2Isabelle
  imports Complex_Main
begin

section \<open>The Crownstone device driver (device.js)\<close>

text \<open>
  The driver is asynchronous JavaScript. A handler runs without interruption from one
  \<^verbatim>\<open>await\<close> on an external operation (cloud, platform, radio) to the next;
  between two such blocks any other handler may run. The model makes this explicit: a
  handler in flight is a program counter (\<open>pc\<close>) naming the \<^verbatim>\<open>await\<close> it is
  suspended at, \<open>start\<close> runs the synchronous prefix of a handler, and \<open>step\<close> resumes a
  suspended handler with the outcome of the awaited operation. Every block returns the
  external calls it issued, in order. An \<^verbatim>\<open>await\<close> on a promise that the driver's
  own code has already settled (the cached branch of \<^verbatim>\<open>getKeys\<close>) involves no
  external operation and is folded into the surrounding block.
\<close>

subsection \<open>Data\<close>

text \<open>A key slot: \<^verbatim>\<open>null\<close>, \<^verbatim>\<open>undefined\<close> or a key.\<close>

datatype jsval = JNull | JUndefined | JStr string

type_synonym advertisement = string

text \<open>One entry of \<^verbatim>\<open>keysInSphere.sphereKeys\<close>.\<close>

record sphereKey =
  keyType :: string
  key :: string

text \<open>
  A device object: \<^verbatim>\<open>getData()\<close> (id, address, locked, dimmed), the platform's view
  of it (\<^verbatim>\<open>getAvailable()\<close>, \<^verbatim>\<open>getCapabilities()\<close>), the fields the driver
  sets on \<^verbatim>\<open>this\<close> (state and the three keys, \<^verbatim>\<open>undefined\<close> until assigned) and
  the key slots of \<^verbatim>\<open>this.bluenet.settings\<close>.
\<close>

record device =
  data_id :: string
  data_address :: string
  data_locked :: bool
  data_dimmed :: bool
  available :: bool
  capabilities :: "string list"
  state :: nat
  adminKey :: jsval
  memberKey :: jsval
  basicKey :: jsval
  settings_adminKey :: jsval
  settings_memberKey :: jsval
  settings_basicKey :: jsval

text \<open>
  The module-level flags \<^verbatim>\<open>activeConnection\<close> and \<^verbatim>\<open>activeConnectionDim\<close>
  are shared by all device objects. \<open>loginState\<close> is what \<^verbatim>\<open>Homey.app.getLoginState()\<close>
  returns; that function is not part of the sources at hand and is a component of the
  state.
\<close>

record sys =
  activeConnection :: bool
  activeConnectionDim :: bool
  loginState :: bool
  devices :: "nat \<Rightarrow> device"

text \<open>
  The value of a capability. The only numbers the driver passes here are the literals
  \<^verbatim>\<open>1\<close> and \<^verbatim>\<open>0\<close>.
\<close>

datatype capval = CBool bool | CNum real

subsection \<open>JavaScript numbers\<close>

text \<open>
  A JavaScript number is an IEEE 754 binary64 value: a finite one (\<open>Fin x\<close>, with \<open>x\<close> the
  real number it stands for), an infinity, or \<^verbatim>\<open>NaN\<close>. The two zeros are not told
  apart: they compare alike and differ in nothing the driver looks at.
\<close>

datatype jsnum = Fin real | PosInf | NegInf | NaN

definition pow2 :: "int \<Rightarrow> real" where
  "pow2 e = (if 0 \<le> e then 2 ^ nat e else 1 / 2 ^ nat (- e))"

text \<open>
  The binary exponent of a positive real, found by counting up from 0 or down from \<open>-1\<close>:
  the \<open>e\<close> with \<open>pow2 e \<le> x < pow2 (e + 1)\<close>, but never below \<open>-1022\<close> (the
  subnormal numbers share the exponent of the smallest normal one) and never above 1024.
\<close>

function expUp :: "real \<Rightarrow> int \<Rightarrow> int" where
  "expUp x e = (if e < 1024 \<and> pow2 (e + 1) \<le> x then expUp x (e + 1) else e)"
  by pat_completeness auto
termination
  by (relation "measure (\<lambda>(x, e). nat (1024 - e))") auto

function expDown :: "real \<Rightarrow> int \<Rightarrow> int" where
  "expDown x e = (if - 1022 < e \<and> x < pow2 e then expDown x (e - 1) else e)"
  by pat_completeness auto
termination
  by (relation "measure (\<lambda>(x, e). nat (e + 1022))") auto

declare expUp.simps [simp del] expDown.simps [simp del]

definition exponentOf :: "real \<Rightarrow> int" where
  "exponentOf x = (if 1 \<le> x then expUp x 0 else expDown x (- 1))"

text \<open>The nearest integer, a tie going to the even one.\<close>

definition roundHalfEven :: "real \<Rightarrow> int" where
  "roundHalfEven q =
     (let f = \<lfloor>q\<rfloor>
      in if q - of_int f < 1 / 2 then f
         else if 1 / 2 < q - of_int f then f + 1
         else if even f then f else f + 1)"

text \<open>
  Rounding a real to binary64, to nearest with ties to even: the magnitude is rounded to
  a multiple of the unit in the last place of its binade (53 significant bits), and a
  result of magnitude \<open>pow2 1024\<close> or more is an infinity. This is what a decimal literal
  denotes and what an arithmetic operation returns for its exact result.
\<close>

definition toDouble :: "real \<Rightarrow> jsnum" where
  "toDouble x =
     (if x = 0 then Fin 0
      else
        (let a = \<bar>x\<bar>;
             ulp = pow2 (exponentOf a - 52);
             m = of_int (roundHalfEven (a / ulp)) * ulp
         in if pow2 1024 \<le> m then (if 0 < x then PosInf else NegInf)
            else Fin (if 0 < x then m else - m)))"

text \<open>The product \<^verbatim>\<open>a * b\<close> and the comparison \<^verbatim>\<open>a < b\<close> of two numbers.\<close>

fun jsmul :: "jsnum \<Rightarrow> jsnum \<Rightarrow> jsnum" where
  "jsmul (Fin x) (Fin y) = toDouble (x * y)"
| "jsmul NaN b = NaN"
| "jsmul a NaN = NaN"
| "jsmul PosInf (Fin y) = (if y = 0 then NaN else if 0 < y then PosInf else NegInf)"
| "jsmul NegInf (Fin y) = (if y = 0 then NaN else if 0 < y then NegInf else PosInf)"
| "jsmul (Fin x) PosInf = (if x = 0 then NaN else if 0 < x then PosInf else NegInf)"
| "jsmul (Fin x) NegInf = (if x = 0 then NaN else if 0 < x then NegInf else PosInf)"
| "jsmul PosInf PosInf = PosInf"
| "jsmul PosInf NegInf = NegInf"
| "jsmul NegInf PosInf = NegInf"
| "jsmul NegInf NegInf = PosInf"

fun jsless :: "jsnum \<Rightarrow> jsnum \<Rightarrow> bool" where
  "jsless (Fin x) (Fin y) = (x < y)"
| "jsless NaN b = False"
| "jsless a NaN = False"
| "jsless a NegInf = False"
| "jsless PosInf b = False"
| "jsless NegInf b = True"
| "jsless (Fin x) PosInf = True"

subsection \<open>External operations\<close>

text \<open>External operations a handler may call; the \<open>nat\<close> is the device object.\<close>

datatype call =
    CloudTurnOn string
  | CloudTurnOff string
  | CloudSetSwitch string jsnum
  | SetCapabilityValue nat string capval
  | GetSphereId
  | CloudSphereKeys string
  | BleFind string nat
  | BleConnect nat "advertisement option"
  | BleSetSwitchState nat nat
  | BleControlDisconnect nat
  | BleDisconnect nat

text \<open>
  How an awaited operation settles: a promise without a value is fulfilled (\<open>Resolved\<close>),
  any promise is rejected (\<open>Rejected\<close>), or one of the three operations that yield a
  value is fulfilled. \<open>Found None\<close> is \<^verbatim>\<open>ManagerBLE.find\<close> fulfilled with a falsy value.
\<close>

datatype response =
    Resolved
  | Rejected
  | SphereId string
  | SphereKeys "sphereKey list"
  | Found "advertisement option"

subsection \<open>Lock state and dim capability\<close>

text \<open>
  The platform operations of \<^verbatim>\<open>Homey.Device\<close>, as its documentation describes them.
  The flag \<open>ok\<close> of the two driver methods says whether the platform call they issue is
  fulfilled; when it is rejected the platform's view of the device stays as it was. A
  method is modelled up to the point where its platform call has settled
  (\<^verbatim>\<open>addCapability\<close> and \<^verbatim>\<open>removeCapability\<close> are not awaited by the driver).
\<close>

datatype platform_call =
    SetUnavailable string
  | SetAvailable
  | AddCapability string
  | RemoveCapability string

definition setUnavailable :: "device \<Rightarrow> device" where
  "setUnavailable dv = dv\<lparr>available := False\<rparr>"

definition setAvailable :: "device \<Rightarrow> device" where
  "setAvailable dv = dv\<lparr>available := True\<rparr>"

definition addCapability :: "string \<Rightarrow> device \<Rightarrow> device" where
  "addCapability c dv = dv\<lparr>capabilities := capabilities dv @ [c]\<rparr>"

definition removeCapability :: "string \<Rightarrow> device \<Rightarrow> device" where
  "removeCapability c dv = dv\<lparr>capabilities := removeAll c (capabilities dv)\<rparr>"

definition changeLockState :: "bool \<Rightarrow> bool \<Rightarrow> device \<Rightarrow> device \<times> platform_call list" where
  "changeLockState ok st dv =
     (if st \<and> available dv then
        (let dv1 = dv\<lparr>data_locked := True\<rparr>
         in (if ok then setUnavailable dv1 else dv1, [SetUnavailable ''This device is locked.'']))
      else if \<not> st \<and> \<not> available dv then
        (let dv1 = dv\<lparr>data_locked := False\<rparr>
         in (if ok then setAvailable dv1 else dv1, [SetAvailable]))
      else (dv, []))"

definition changeDimCapability :: "bool \<Rightarrow> bool \<Rightarrow> device \<Rightarrow> device \<times> platform_call list" where
  "changeDimCapability ok st dv =
     (if st \<and> ''dim'' \<notin> set (capabilities dv) then
        (let dv1 = dv\<lparr>data_dimmed := True\<rparr>
         in (if ok then addCapability ''dim'' dv1 else dv1, [AddCapability ''dim'']))
      else if \<not> st \<and> ''dim'' \<in> set (capabilities dv) then
        (let dv1 = dv\<lparr>data_dimmed := False\<rparr>
         in (if ok then removeCapability ''dim'' dv1 else dv1, [RemoveCapability ''dim'']))
      else (dv, []))"

subsection \<open>Key retrieval\<close>

definition keysObtained :: "device \<Rightarrow> bool" where
  "keysObtained dv \<longleftrightarrow>
     settings_adminKey dv \<noteq> JNull \<and> settings_memberKey dv \<noteq> JNull \<and> settings_basicKey dv \<noteq> JNull"

text \<open>The body of the loop over \<^verbatim>\<open>keyArray\<close>, and the loop.\<close>

definition storeKey :: "sphereKey \<Rightarrow> device \<Rightarrow> device" where
  "storeKey k dv =
     (if keyType k = ''ADMIN_KEY'' then dv\<lparr>adminKey := JStr (key k)\<rparr>
      else if keyType k = ''MEMBER_KEY'' then dv\<lparr>memberKey := JStr (key k)\<rparr>
      else if keyType k = ''BASIC_KEY'' then dv\<lparr>basicKey := JStr (key k)\<rparr>
      else dv)"

primrec storeKeys :: "sphereKey list \<Rightarrow> device \<Rightarrow> device" where
  "storeKeys [] dv = dv"
| "storeKeys (k # ks) dv = storeKeys ks (storeKey k dv)"

text \<open>
  Modelled from the spec: \<^verbatim>\<open>bluenet.settings.loadKeys(admin, member, basic)\<close> of the
  radio library, which is not part of the sources at hand; it stores its three arguments
  in the key slots of the settings.
\<close>

definition loadKeys :: "jsval \<Rightarrow> jsval \<Rightarrow> jsval \<Rightarrow> device \<Rightarrow> device" where
  "loadKeys a m b dv = dv\<lparr>settings_adminKey := a, settings_memberKey := m, settings_basicKey := b\<rparr>"

text \<open>
  \<^verbatim>\<open>getKeys\<close> suspends at \<^verbatim>\<open>Homey.app.getSphereId()\<close> and at
  \<^verbatim>\<open>cloud.sphere(sphereId).keys()\<close>; it ends fulfilled or rejected. The app's
  \<^verbatim>\<open>getSphereId\<close> is not part of the sources at hand: it is an external operation
  that yields a sphere id or is rejected.
\<close>

datatype kpc = K_SphereId | K_Keys | K_Resolved | K_Rejected

definition getKeys_start :: "nat \<Rightarrow> sys \<Rightarrow> sys \<times> kpc \<times> call list" where
  "getKeys_start d s =
     (if keysObtained (devices s d) then (s, K_Resolved, [])
      else (s, K_SphereId, [GetSphereId]))"

fun getKeys_step :: "response \<Rightarrow> kpc \<Rightarrow> nat \<Rightarrow> sys \<Rightarrow> sys \<times> kpc \<times> call list" where
  "getKeys_step (SphereId sid) K_SphereId d s = (s, K_Keys, [CloudSphereKeys sid])"
| "getKeys_step Rejected K_SphereId d s = (s, K_Rejected, [])"
| "getKeys_step (SphereKeys ks) K_Keys d s =
     (let dv = storeKeys ks (devices s d);
          dv' = loadKeys (adminKey dv) (memberKey dv) (basicKey dv) dv
      in (s\<lparr>devices := (devices s)(d := dv')\<rparr>, K_Resolved, []))"
| "getKeys_step Rejected K_Keys d s = (s, K_Rejected, [])"
| "getKeys_step r k d s = (s, k, [])"

text \<open>\<^verbatim>\<open>getKeys\<close> on its own: the call, then the outcomes of what it awaits.\<close>

fun getKeys_run :: "response list \<Rightarrow> nat \<Rightarrow> sys \<times> kpc \<Rightarrow> sys \<times> kpc \<times> call list" where
  "getKeys_run [] d (s, k) = (s, k, [])"
| "getKeys_run (r # rs) d (s, k) =
     (let (s1, k1, c1) = getKeys_step r k d s;
          (s2, k2, c2) = getKeys_run rs d (s1, k1)
      in (s2, k2, c1 @ c2))"

definition getKeys :: "response list \<Rightarrow> nat \<Rightarrow> sys \<Rightarrow> sys \<times> kpc \<times> call list" where
  "getKeys rs d s =
     (let (s0, k0, c0) = getKeys_start d s;
          (s1, k1, c1) = getKeys_run rs d (s0, k0)
      in (s1, k1, c0 @ c1))"

subsection \<open>Discovery\<close>

definition toLowerCase :: "char \<Rightarrow> char" where
  "toLowerCase c =
     (let n = (of_char c :: nat) in if 65 \<le> n \<and> n \<le> 90 then char_of (n + 32) else c)"

definition uuid_of :: "string \<Rightarrow> string" where
  "uuid_of address = filter (\<lambda>c. c \<noteq> CHR '':'') (map toLowerCase address)"

definition findCrownstone_call :: "nat \<Rightarrow> sys \<Rightarrow> call" where
  "findCrownstone_call d s = BleFind (uuid_of (data_address (devices s d))) 10000"

text \<open>
  What \<^verbatim>\<open>findCrownstone\<close> returns once \<^verbatim>\<open>ManagerBLE.find\<close> has settled: the
  advertisement, or \<^verbatim>\<open>null\<close> (\<open>None\<close>) when the promise was rejected (the
  \<^verbatim>\<open>catch\<close> yields \<^verbatim>\<open>undefined\<close>) or fulfilled with a falsy value. The outer
  \<open>None\<close> is a response that does not belong to this operation.
\<close>

fun findCrownstone_result :: "response \<Rightarrow> advertisement option option" where
  "findCrownstone_result (Found (Some a)) = Some (Some a)"
| "findCrownstone_result (Found None) = Some None"
| "findCrownstone_result Rejected = Some None"
| "findCrownstone_result r = None"

subsection \<open>The capability listeners\<close>

text \<open>
  Where a handler is suspended. \<open>O_\<close> program counters belong to
  \<^verbatim>\<open>onCapabilityOnoff\<close> (with the requested value), \<open>D_\<close> ones to
  \<^verbatim>\<open>onCapabilityDim\<close> (\<open>D_setOnoff\<close> with the percentage to send).
\<close>

datatype pc =
    Done
  | O_switchCloud bool
  | O_getKeys bool kpc
  | O_find bool
  | O_connect bool
  | O_setSwitchState bool
  | O_controlDisconnect bool
  | O_disconnect bool
  | O_setDim bool
  | D_setOnoff jsnum
  | D_setSwitch

definition switchCloud_call :: "bool \<Rightarrow> nat \<Rightarrow> sys \<Rightarrow> call" where
  "switchCloud_call v d s =
     (if v then CloudTurnOn (data_id (devices s d)) else CloudTurnOff (data_id (devices s d)))"

text \<open>
  The end of \<^verbatim>\<open>onCapabilityOnoff\<close>, reached when the awaited switch has settled
  (the cloud call fulfilled, or the radio fallback fulfilled or rejected and logged).
\<close>

definition syncDim :: "bool \<Rightarrow> nat \<Rightarrow> sys \<Rightarrow> sys \<times> pc \<times> call list" where
  "syncDim v d s =
     (if ''dim'' \<in> set (capabilities (devices s d)) then
        (s, O_setDim v, [SetCapabilityValue d ''dim'' (CNum (if v then 1 else 0))])
      else (s\<lparr>activeConnection := False\<rparr>, Done, []))"

text \<open>
  \<^verbatim>\<open>switchBLE\<close> up to its first suspension: it sets \<^verbatim>\<open>this.state\<close> and calls
  \<^verbatim>\<open>getKeys\<close>; when that returns at once, \<^verbatim>\<open>findCrownstone\<close> follows.
\<close>

definition switchBLE_start :: "bool \<Rightarrow> nat \<Rightarrow> sys \<Rightarrow> sys \<times> pc \<times> call list" where
  "switchBLE_start v d s =
     (let s1 = s\<lparr>devices := (devices s)(d := (devices s d)\<lparr>state := (if v then 1 else 0)\<rparr>)\<rparr>;
          (s2, k, cs) = getKeys_start d s1
      in if k = K_Resolved \<or> k = K_Rejected then (s2, O_find v, cs @ [findCrownstone_call d s2])
         else (s2, O_getKeys v k, cs))"

definition onCapabilityOnoff_start :: "bool \<Rightarrow> nat \<Rightarrow> sys \<Rightarrow> sys \<times> pc \<times> call list" where
  "onCapabilityOnoff_start v d s =
     (if \<not> activeConnection s \<and> loginState s then
        (let s1 = s\<lparr>activeConnection := True\<rparr>
         in (s1, O_switchCloud v, [switchCloud_call v d s1]))
      else (s, Done, []))"

text \<open>
  The percentage \<^verbatim>\<open>onCapabilityDim\<close> sends: \<^verbatim>\<open>value*100\<close> in binary64, made 10
  when it lies strictly between 0 and 10.
\<close>

definition dimPercentage :: "jsnum \<Rightarrow> jsnum" where
  "dimPercentage v =
     (let percentage = jsmul v (Fin 100)
      in if jsless (Fin 0) percentage \<and> jsless percentage (Fin 10) then Fin 10 else percentage)"

text \<open>
  Both comparisons of the \<^verbatim>\<open>if\<close> / \<^verbatim>\<open>else if\<close> are false for \<^verbatim>\<open>NaN\<close>; the
  percentage is then sent with no update of the on-state before it.
\<close>

definition onCapabilityDim_start :: "jsnum \<Rightarrow> nat \<Rightarrow> sys \<Rightarrow> sys \<times> pc \<times> call list" where
  "onCapabilityDim_start v d s =
     (if \<not> activeConnection s \<and> loginState s then
        (let s1 = s\<lparr>activeConnectionDim := True\<rparr>;
             percentage = dimPercentage v
         in if jsless (Fin 0) percentage then
              (s1, D_setOnoff percentage, [SetCapabilityValue d ''onoff'' (CBool True)])
            else if jsless percentage (Fin 1) then
              (s1, D_setOnoff percentage, [SetCapabilityValue d ''onoff'' (CBool False)])
            else (s1, D_setSwitch, [CloudSetSwitch (data_id (devices s1 d)) percentage]))
      else (s, Done, []))"

datatype request = OnOff bool | Dim jsnum

fun start :: "request \<Rightarrow> nat \<Rightarrow> sys \<Rightarrow> sys \<times> pc \<times> call list" where
  "start (OnOff v) d s = onCapabilityOnoff_start v d s"
| "start (Dim v) d s = onCapabilityDim_start v d s"

text \<open>
  Resuming a suspended handler. A response that does not belong to the operation the
  handler awaits is not delivered: the handler stays where it is.
\<close>

fun step :: "response \<Rightarrow> pc \<Rightarrow> nat \<Rightarrow> sys \<Rightarrow> sys \<times> pc \<times> call list" where
  "step Resolved (O_switchCloud v) d s = syncDim v d s"
| "step Rejected (O_switchCloud v) d s = switchBLE_start v d s"
| "step r (O_getKeys v k) d s =
     (let (s1, k1, cs) = getKeys_step r k d s
      in if k1 = K_Resolved \<or> k1 = K_Rejected then (s1, O_find v, cs @ [findCrownstone_call d s1])
         else (s1, O_getKeys v k1, cs))"
| "step r (O_find v) d s =
     (case findCrownstone_result r of
        Some homeyAdvertisement \<Rightarrow> (s, O_connect v, [BleConnect d homeyAdvertisement])
      | None \<Rightarrow> (s, O_find v, []))"
| "step Resolved (O_connect v) d s =
     (s, O_setSwitchState v, [BleSetSwitchState d (state (devices s d))])"
| "step Rejected (O_connect v) d s = syncDim v d s"
| "step Resolved (O_setSwitchState v) d s = (s, O_controlDisconnect v, [BleControlDisconnect d])"
| "step Rejected (O_setSwitchState v) d s = syncDim v d s"
| "step Resolved (O_controlDisconnect v) d s = (s, O_disconnect v, [BleDisconnect d])"
| "step Rejected (O_controlDisconnect v) d s = syncDim v d s"
| "step Resolved (O_disconnect v) d s = syncDim v d s"
| "step Rejected (O_disconnect v) d s = syncDim v d s"
| "step Resolved (O_setDim v) d s = (s\<lparr>activeConnection := False\<rparr>, Done, [])"
| "step Rejected (O_setDim v) d s = (s, Done, [])"
| "step Resolved (D_setOnoff percentage) d s =
     (s, D_setSwitch, [CloudSetSwitch (data_id (devices s d)) percentage])"
| "step Rejected (D_setOnoff percentage) d s = (s, Done, [])"
| "step Resolved D_setSwitch d s = (s\<lparr>activeConnectionDim := False\<rparr>, Done, [])"
| "step Rejected D_setSwitch d s = (s, Done, [])"
| "step r p d s = (s, p, [])"

text \<open>One handler on its own: the request, then the outcomes of what it awaits.\<close>

fun run :: "response list \<Rightarrow> nat \<Rightarrow> sys \<times> pc \<Rightarrow> sys \<times> pc \<times> call list" where
  "run [] d (s, p) = (s, p, [])"
| "run (r # rs) d (s, p) =
     (let (s1, p1, c1) = step r p d s;
          (s2, p2, c2) = run rs d (s1, p1)
      in (s2, p2, c1 @ c2))"

definition handle :: "request \<Rightarrow> response list \<Rightarrow> nat \<Rightarrow> sys \<Rightarrow> sys \<times> pc \<times> call list" where
  "handle rq rs d s =
     (let (s0, p0, c0) = start rq d s;
          (s1, p1, c1) = run rs d (s0, p0)
      in (s1, p1, c0 @ c1))"

subsection \<open>Interleaved handlers\<close>

text \<open>
  The platform invokes a listener (\<open>Invoke\<close>: the synchronous prefix runs and the
  handler joins the list of handlers) or an awaited operation of the \<open>i\<close>-th handler
  settles (\<open>Deliver\<close>). A configuration is the shared state, the handlers with their
  device objects, and the external calls made so far.
\<close>

datatype action = Invoke nat request | Deliver nat response

type_synonym config = "sys \<times> (nat \<times> pc) list \<times> call list"

fun exec1 :: "action \<Rightarrow> config \<Rightarrow> config" where
  "exec1 (Invoke d rq) (s, ts, tr) =
     (let (s1, p, cs) = start rq d s in (s1, ts @ [(d, p)], tr @ cs))"
| "exec1 (Deliver i r) (s, ts, tr) =
     (if i < length ts then
        (let (s1, p, cs) = step r (snd (ts ! i)) (fst (ts ! i)) s
         in (s1, ts[i := (fst (ts ! i), p)], tr @ cs))
      else (s, ts, tr))"

fun exec :: "action list \<Rightarrow> config \<Rightarrow> config" where
  "exec [] c = c"
| "exec (a # as) c = exec as (exec1 a c)"

text \<open>A switch command is in flight while its handler is suspended.\<close>

fun switchInFlight :: "pc \<Rightarrow> bool" where
  "switchInFlight Done = False"
| "switchInFlight (D_setOnoff percentage) = False"
| "switchInFlight D_setSwitch = False"
| "switchInFlight p = True"

fun dimInFlight :: "pc \<Rightarrow> bool" where
  "dimInFlight (D_setOnoff percentage) = True"
| "dimInFlight D_setSwitch = True"
| "dimInFlight p = False"

subsection \<open>Observing a run\<close>

definition calls :: "sys \<times> pc \<times> call list \<Rightarrow> call list" where
  "calls x = snd (snd x)"

text \<open>
  The position of an external call in \<^verbatim>\<open>onCapabilityOnoff\<close>: the cloud switch (0),
  the two calls of key retrieval (1, 2), discovery (3), connect (4), the switch command
  (5), the two disconnects (6, 7) and the update of the dim value (8). \<open>stage\<close> is the
  position of the call a suspended handler awaits.
\<close>

fun phase :: "call \<Rightarrow> nat" where
  "phase (CloudTurnOn i) = 0"
| "phase (CloudTurnOff i) = 0"
| "phase GetSphereId = 1"
| "phase (CloudSphereKeys sid) = 2"
| "phase (BleFind u t) = 3"
| "phase (BleConnect d a) = 4"
| "phase (BleSetSwitchState d n) = 5"
| "phase (BleControlDisconnect d) = 6"
| "phase (BleDisconnect d) = 7"
| "phase (SetCapabilityValue d c x) = 8"
| "phase (CloudSetSwitch i p) = 9"

fun stage :: "pc \<Rightarrow> nat" where
  "stage (O_switchCloud v) = 0"
| "stage (O_getKeys v K_SphereId) = 1"
| "stage (O_getKeys v k) = 2"
| "stage (O_find v) = 3"
| "stage (O_connect v) = 4"
| "stage (O_setSwitchState v) = 5"
| "stage (O_controlDisconnect v) = 6"
| "stage (O_disconnect v) = 7"
| "stage (O_setDim v) = 8"
| "stage p = 9"

text \<open>The calls of the radio fallback (\<^verbatim>\<open>switchBLE\<close>), key retrieval included.\<close>

definition radioAttempt :: "call \<Rightarrow> bool" where
  "radioAttempt c \<longleftrightarrow> 1 \<le> phase c \<and> phase c \<le> 7"

text \<open>
  Partitioning by key type, in the words of the specification: the key kept for a type
  is that of the last entry of this type, and the value held before when there is none.
\<close>

definition keyOfType :: "string \<Rightarrow> sphereKey list \<Rightarrow> jsval \<Rightarrow> jsval" where
  "keyOfType ty ks old =
     (if filter (\<lambda>k. keyType k = ty) ks = [] then old
      else JStr (key (last (filter (\<lambda>k. keyType k = ty) ks))))"

text \<open>
  The number of switch commands in flight, and the invariant of the on/off handlers: none
  is in flight, or one is and \<^verbatim>\<open>activeConnection\<close> is set.
\<close>

definition switchCount :: "(nat \<times> pc) list \<Rightarrow> nat" where
  "switchCount ts = length (filter (\<lambda>t. switchInFlight (snd t)) ts)"

definition oneSwitch :: "config \<Rightarrow> bool" where
  "oneSwitch c \<longleftrightarrow>
     (case c of (s, ts, tr) \<Rightarrow> switchCount ts = 0 \<or> (switchCount ts = 1 \<and> activeConnection s))"

text \<open>
  A slot that holds a key; a device object whose radio settings hold the three keys; and
  a device object whose keys are kept: its settings hold the three keys, and so do the
  three fields the driver loads them from.
\<close>

fun isKey :: "jsval \<Rightarrow> bool" where
  "isKey (JStr k) = True"
| "isKey v = False"

definition keysLoaded :: "device \<Rightarrow> bool" where
  "keysLoaded dv \<longleftrightarrow>
     isKey (settings_adminKey dv) \<and> isKey (settings_memberKey dv) \<and> isKey (settings_basicKey dv)"

definition keysKept :: "device \<Rightarrow> bool" where
  "keysKept dv \<longleftrightarrow>
     keysLoaded dv \<and> isKey (adminKey dv) \<and> isKey (memberKey dv) \<and> isKey (basicKey dv)"

subsection \<open>A concrete installation\<close>

text \<open>Two device objects and a logged-in app with no command in flight.\<close>

definition plug :: device where
  "plug = \<lparr>data_id = ''stone-1'', data_address = ''c4:d0:e3:aa:01:02'', data_locked = False,
            data_dimmed = False, available = True, capabilities = [''onoff''], state = 0,
            adminKey = JUndefined, memberKey = JUndefined, basicKey = JUndefined,
            settings_adminKey = JNull, settings_memberKey = JNull, settings_basicKey = JNull\<rparr>"

definition lamp :: device where
  "lamp = \<lparr>data_id = ''stone-2'', data_address = ''c4:d0:e3:aa:01:03'', data_locked = False,
            data_dimmed = True, available = True, capabilities = [''onoff'', ''dim''], state = 0,
            adminKey = JUndefined, memberKey = JUndefined, basicKey = JUndefined,
            settings_adminKey = JNull, settings_memberKey = JNull, settings_basicKey = JNull\<rparr>"

definition sphereKeys3 :: "sphereKey list" where
  "sphereKeys3 = [\<lparr>keyType = ''ADMIN_KEY'', key = ''a1''\<rparr>, \<lparr>keyType = ''MEMBER_KEY'', key = ''m1''\<rparr>,
                  \<lparr>keyType = ''BASIC_KEY'', key = ''b1''\<rparr>]"

definition home :: sys where
  "home = \<lparr>activeConnection = False, activeConnectionDim = False, loginState = True,
            devices = (\<lambda>d. if d = 0 then plug else lamp)\<rparr>"

text \<open>The same installation once the lamp has fetched and loaded the three keys.\<close>

definition keyedHome :: sys where
  "keyedHome =
     home\<lparr>devices := (devices home)(1 :=
       loadKeys (JStr ''a1'') (JStr ''m1'') (JStr ''b1'')
         (lamp\<lparr>adminKey := JStr ''a1'', memberKey := JStr ''m1'', basicKey := JStr ''b1''\<rparr>))\<rparr>"

section \<open>The app (app.js): presence trigger and condition\<close>

subsection \<open>The trigger\<close>

text \<open>
  A room as a flow card holds it (\<^verbatim>\<open>args.rooms\<close>) and as an event names it
  (\<^verbatim>\<open>data.location\<close>, the trigger's \<^verbatim>\<open>state\<close>): an id and a name.
\<close>

record room =
  room_id :: string
  room_name :: string

record sse_event =
  ev_type :: string
  ev_subType :: string
  ev_location :: room

text \<open>The run listener of \<^verbatim>\<open>presenceTrigger\<close>.\<close>

definition triggerRunListener :: "room \<Rightarrow> room \<Rightarrow> bool" where
  "triggerRunListener args st \<longleftrightarrow> room_name args = room_name st \<and> room_id args = room_id st"

text \<open>
  \<^verbatim>\<open>eventHandler\<close>: the states it passes to \<^verbatim>\<open>presenceTrigger.trigger\<close>, one
  per call.
\<close>

definition eventHandler :: "sse_event \<Rightarrow> room list" where
  "eventHandler data =
     (if ev_type data = ''presence'' \<and> ev_subType data = ''enterLocation''
      then [\<lparr>room_id = room_id (ev_location data), room_name = room_name (ev_location data)\<rparr>]
      else [])"

text \<open>
  The platform runs the listener once per call of \<^verbatim>\<open>trigger\<close> for every flow that
  uses the card, with the room configured in that flow, and starts the flows for which
  the listener answers true. \<open>flowsFired\<close> lists the flows an event starts.
\<close>

definition flowsFired :: "room list \<Rightarrow> sse_event \<Rightarrow> room list" where
  "flowsFired flows data =
     concat (map (\<lambda>st. filter (\<lambda>args. triggerRunListener args st) flows) (eventHandler data))"

subsection \<open>The condition\<close>







datatype outcome = Returned | Threw




subsection \<open>A concrete event and poll\<close>

definition kitchen :: room where
  "kitchen = \<lparr>room_id = ''A'', room_name = ''Kitchen''\<rparr>"

definition enterKitchen :: sse_event where
  "enterKitchen = \<lparr>ev_type = ''presence'', ev_subType = ''enterLocation'', ev_location = kitchen\<rparr>"

definition exitKitchen :: sse_event where
  "exitKitchen = \<lparr>ev_type = ''presence'', ev_subType = ''exitLocation'', ev_location = kitchen\<rparr>"





section \<open>The app (app.ts): connections and synchronization\<close>

text \<open>
  The app object: the login flag, the stored settings (\<open>None\<close> is \<^verbatim>\<open>undefined\<close>), the
  two caches, whose contents stay abstract, and whether the cloud object shared with the
  mirror holds an authenticated session.
\<close>

record ('sc, 'fc) tsApp =
  loggedIn :: bool
  settings_email :: "string option"
  settings_password :: "string option"
  slowCache :: 'sc
  fastCache :: 'fc
  cloudSession :: bool

text \<open>
  The world outside the app: whether the cloud and the event server accept a login with
  the given credentials (they reject bad credentials and when they cannot be reached),
  the snapshot a full pull builds for the authenticated account (\<open>None\<close> when no sphere
  can be fetched), whether a pull that cannot complete rejects its promise or only logs,
  and the projection of the raw cache that the mapper computes.
\<close>

record ('sc, 'fc) remote =
  cloud_accepts :: "string option \<Rightarrow> string option \<Rightarrow> bool"
  eventServer_accepts :: "string option \<Rightarrow> string option \<Rightarrow> bool"
  cloud_pull :: "'sc option"
  pull_failure_rejects :: bool
  projection :: "'sc \<Rightarrow> 'fc"

datatype tsCall =
    MirrorLogin "string option" "string option"
  | ServerEventsLogin "string option" "string option"
  | MirrorGetAll
  | MapperMapAll
  | UpdateDevices
  | SettingsSet string "string option"

text \<open>
  Modelled from the spec: \<^verbatim>\<open>Mirror.login\<close> (source/mirror, not part of the sources at
  hand). It establishes the session with the remote service and fails on bad credentials
  or an unreachable service; on failure no cache is modified and no session is
  established.
\<close>

definition mirror_login ::
  "('sc, 'fc) remote \<Rightarrow> string option \<Rightarrow> string option \<Rightarrow> ('sc, 'fc) tsApp
     \<Rightarrow> ('sc, 'fc) tsApp \<times> outcome" where
  "mirror_login env email password a =
     (if cloud_accepts env email password then (a\<lparr>cloudSession := True\<rparr>, Returned)
      else (a, Threw))"

text \<open>
  Modelled from the spec: \<^verbatim>\<open>ServerEvents.login\<close> (source/serverEvents, not part of
  the sources at hand). It establishes the push-stream session and fails on bad
  credentials or an unreachable service; it touches no cache.
\<close>

definition serverEvents_login ::
  "('sc, 'fc) remote \<Rightarrow> string option \<Rightarrow> string option \<Rightarrow> ('sc, 'fc) tsApp
     \<Rightarrow> ('sc, 'fc) tsApp \<times> outcome" where
  "serverEvents_login env email password a =
     (a, if eventServer_accepts env email password then Returned else Threw)"

text \<open>
  Modelled from the spec: \<^verbatim>\<open>Mirror.getAll\<close> (source/mirror, not part of the sources at
  hand). It fetches what the authenticated account can reach and replaces the contents of
  the raw cache by the new snapshot; it completes only if at least one sphere could be
  fetched. Without a session, or when nothing can be fetched, the raw cache stays as it
  is.
\<close>

definition mirror_getAll ::
  "('sc, 'fc) remote \<Rightarrow> ('sc, 'fc) tsApp \<Rightarrow> ('sc, 'fc) tsApp \<times> outcome" where
  "mirror_getAll env a =
     (case (if cloudSession a then cloud_pull env else None) of
        Some snapshot \<Rightarrow> (a\<lparr>slowCache := snapshot\<rparr>, Returned)
      | None \<Rightarrow> (a, if pull_failure_rejects env then Threw else Returned))"

text \<open>
  Modelled from the spec: \<^verbatim>\<open>Mapper.mapAll\<close> (source/mapper, not part of the sources at
  hand). A deterministic, pure transform that projects the raw cache into the fast cache
  and runs to completion.
\<close>

definition mapper_mapAll :: "('sc, 'fc) remote \<Rightarrow> ('sc, 'fc) tsApp \<Rightarrow> ('sc, 'fc) tsApp" where
  "mapper_mapAll env a = a\<lparr>fastCache := projection env (slowCache a)\<rparr>"

text \<open>\<^verbatim>\<open>!x\<close> for a string that may be \<^verbatim>\<open>undefined\<close>.\<close>

definition falsy :: "string option \<Rightarrow> bool" where
  "falsy x \<longleftrightarrow> x = None \<or> x = Some []"

text \<open>
  \<^verbatim>\<open>setupConnections\<close> catches the rejection of either login itself, logs it and
  returns.
\<close>

definition setupConnections ::
  "('sc, 'fc) remote \<Rightarrow> string option \<Rightarrow> string option \<Rightarrow> ('sc, 'fc) tsApp
     \<Rightarrow> ('sc, 'fc) tsApp \<times> outcome \<times> tsCall list" where
  "setupConnections env email password a =
     (let a0 = a\<lparr>loggedIn := False\<rparr>;
          (a1, o1) = mirror_login env email password a0
      in case o1 of
           Threw \<Rightarrow> (a1, Returned, [MirrorLogin email password])
         | Returned \<Rightarrow>
             (let (a2, o2) = serverEvents_login env email password a1
              in case o2 of
                   Threw \<Rightarrow>
                     (a2, Returned, [MirrorLogin email password, ServerEventsLogin email password])
                 | Returned \<Rightarrow>
                     (a2\<lparr>loggedIn := True\<rparr>, Returned,
                      [MirrorLogin email password, ServerEventsLogin email password])))"

definition synchronizeCloud ::
  "('sc, 'fc) remote \<Rightarrow> ('sc, 'fc) tsApp \<Rightarrow> ('sc, 'fc) tsApp \<times> outcome \<times> tsCall list" where
  "synchronizeCloud env a =
     (let email = settings_email a;
          password = settings_password a;
          (a1, out, c1) = setupConnections env email password a
      in case out of
           Threw \<Rightarrow> (a1, Returned, c1)
         | Returned \<Rightarrow>
             (let (a2, o2) = mirror_getAll env a1
              in case o2 of
                   Threw \<Rightarrow> (a2, Threw, c1 @ [MirrorGetAll])
                 | Returned \<Rightarrow>
                     (mapper_mapAll env a2, Returned,
                      c1 @ [MirrorGetAll, MapperMapAll, UpdateDevices])))"

definition setSettings ::
  "('sc, 'fc) remote \<Rightarrow> string option \<Rightarrow> string option \<Rightarrow> ('sc, 'fc) tsApp
     \<Rightarrow> ('sc, 'fc) tsApp \<times> bool \<times> tsCall list" where
  "setSettings env email password a =
     (if falsy email then (a, False, [])
      else if falsy password then (a, False, [])
      else
        (let (a1, out, c1) = setupConnections env email password a
         in case out of
              Threw \<Rightarrow> (a1, False, c1)
            | Returned \<Rightarrow>
                (a1\<lparr>settings_email := email, settings_password := password\<rparr>, loggedIn a1,
                 c1 @ [SettingsSet ''email'' email, SettingsSet ''password'' password])))"

subsection \<open>A concrete app\<close>

text \<open>
  The app as \<^verbatim>\<open>onInit\<close> builds it, with stored credentials and empty caches, and a
  world in which the cloud accepts the credentials and holds one sphere for the account
  while the event server cannot be reached.
\<close>

definition freshApp :: "(string list, string list) tsApp" where
  "freshApp = \<lparr>loggedIn = False, settings_email = Some ''user@example.org'',
                settings_password = Some ''secret'', slowCache = [], fastCache = [],
                cloudSession = False\<rparr>"

definition eventServerDown :: "(string list, string list) remote" where
  "eventServerDown = \<lparr>cloud_accepts = (\<lambda>email password. True),
                       eventServer_accepts = (\<lambda>email password. False),
                       cloud_pull = Some [''sphere-1''],
                       pull_failure_rejects = True,
                       projection = (\<lambda>sc. sc)\<rparr>"

section \<open>Properties of the device driver\<close>

subsection \<open>Lock state and dim capability\<close>

text \<open>
  Claim C8. Reconciling the lock state and the dim capability is idempotent: applying the
  same \<open>locked\<close> or \<open>dimmable\<close> value a second time leaves the device (availability, the
  stored \<open>locked\<close> and \<open>dimmed\<close> flags, the capabilities) as the first application left it,
  whether the platform call is fulfilled or rejected; and once an application has taken
  effect, a further one issues no platform call and changes nothing.
\<close>

theorem reconcile_idempotent:
  "fst (changeLockState ok st (fst (changeLockState ok st dv))) = fst (changeLockState ok st dv)
   \<and> changeLockState ok' st (fst (changeLockState True st dv)) = (fst (changeLockState True st dv), [])
   \<and> fst (changeDimCapability ok st (fst (changeDimCapability ok st dv)))
       = fst (changeDimCapability ok st dv)
   \<and> changeDimCapability ok' st (fst (changeDimCapability True st dv))
       = (fst (changeDimCapability True st dv), [])"
proof -
  have lock: "fst (changeLockState ok st (fst (changeLockState ok st dv))) = fst (changeLockState ok st dv)"
    by (simp add: changeLockState_def setUnavailable_def setAvailable_def Let_def)
  have lock_noop: "changeLockState ok' st (fst (changeLockState True st dv))
      = (fst (changeLockState True st dv), [])"
    by (simp add: changeLockState_def setUnavailable_def setAvailable_def Let_def)
  have dim: "fst (changeDimCapability ok st (fst (changeDimCapability ok st dv)))
      = fst (changeDimCapability ok st dv)"
    by (simp add: changeDimCapability_def addCapability_def removeCapability_def Let_def)
  have dim_noop: "changeDimCapability ok' st (fst (changeDimCapability True st dv))
      = (fst (changeDimCapability True st dv), [])"
    by (simp add: changeDimCapability_def addCapability_def removeCapability_def Let_def)
  from lock lock_noop dim dim_noop show ?thesis by blast
qed

subsection \<open>Dimming\<close>

text \<open>Rounding yields a number, never \<^verbatim>\<open>NaN\<close>; so does a product with 100.\<close>

lemma toDouble_not_NaN: "toDouble x \<noteq> NaN"
  by (simp add: toDouble_def Let_def)

lemma times_100_not_NaN: "v \<noteq> NaN \<Longrightarrow> jsmul v (Fin 100) \<noteq> NaN"
  by (cases v) (simp_all add: toDouble_not_NaN)

lemma dimPercentage_not_NaN: "v \<noteq> NaN \<Longrightarrow> dimPercentage v \<noteq> NaN"
  by (simp add: dimPercentage_def Let_def times_100_not_NaN)

lemma dimPercentage_below_one:
  assumes "v \<noteq> NaN"
  shows "jsless (dimPercentage v) (Fin 1) = (\<not> jsless (Fin 0) (dimPercentage v))"
proof (cases "jsmul v (Fin 100)")
  case (Fin y)
  then show ?thesis by (auto simp add: dimPercentage_def Let_def)
next
  case PosInf
  then show ?thesis by (simp add: dimPercentage_def Let_def)
next
  case NegInf
  then show ?thesis by (simp add: dimPercentage_def Let_def)
next
  case NaN
  with times_100_not_NaN [OF assms] show ?thesis by simp
qed

lemma onCapabilityDim_start_dispatched:
  assumes "\<not> activeConnection s" and "loginState s" and "v \<noteq> NaN"
  shows "onCapabilityDim_start v d s =
     (s\<lparr>activeConnectionDim := True\<rparr>, D_setOnoff (dimPercentage v),
      [SetCapabilityValue d ''onoff'' (CBool (jsless (Fin 0) (dimPercentage v)))])"
proof (cases "jsless (Fin 0) (dimPercentage v)")
  case True
  with assms show ?thesis by (simp add: onCapabilityDim_start_def Let_def)
next
  case False
  with assms(3) have "jsless (dimPercentage v) (Fin 1)" by (simp add: dimPercentage_below_one)
  with False assms show ?thesis by (simp add: onCapabilityDim_start_def Let_def)
qed

text \<open>
  For \<^verbatim>\<open>NaN\<close> neither comparison holds: the handler sends it to the cloud at once.
\<close>

lemma onCapabilityDim_start_NaN:
  assumes "\<not> activeConnection s" and "loginState s"
  shows "onCapabilityDim_start NaN d s =
     (s\<lparr>activeConnectionDim := True\<rparr>, D_setSwitch, [CloudSetSwitch (data_id (devices s d)) NaN])"
  using assms by (simp add: onCapabilityDim_start_def dimPercentage_def Let_def)

text \<open>The literals of the test vector, and 0.57, in binary64.\<close>

lemma literal_fractions:
  "toDouble (5 / 100) = Fin (3602879701896397 / 72057594037927936)"
  "toDouble (1 / 2) = Fin (1 / 2)"
  "toDouble 1 = Fin 1"
  "toDouble (57 / 100) = Fin (5134103575202365 / 9007199254740992)"
  by (simp_all add: toDouble_def exponentOf_def expUp.simps expDown.simps pow2_def
      roundHalfEven_def Let_def split del: if_split)

lemma dimPercentage_vectors:
  "dimPercentage (toDouble 0) = Fin 0"
  "dimPercentage (toDouble (5 / 100)) = Fin 10"
  "dimPercentage (toDouble (1 / 2)) = Fin 50"
  "dimPercentage (toDouble 1) = Fin 100"
  "dimPercentage (toDouble (57 / 100)) = Fin (8022036836253695 / 140737488355328)"
  by (simp_all add: literal_fractions dimPercentage_def toDouble_def exponentOf_def expUp.simps
      expDown.simps pow2_def roundHalfEven_def Let_def split del: if_split)

text \<open>
  Claim C3. A dispatched dim request whose fraction is a number (anything but
  \<^verbatim>\<open>NaN\<close>, so every fraction in [0,1]) multiplies it by 100 in binary64 arithmetic; a
  percentage strictly between 0 and 10 becomes 10, every other percentage (10 itself,
  anything above 100) is kept. The on-state is set first, to true when the percentage is
  above 0 and to false when it is below 1 (after the clamp the two cases exclude each
  other); only when that call is fulfilled is the percentage sent to the cloud. The
  fractions 0, 0.05, 0.5 and 1 give 0, 10, 50 and 100; the fraction 0.57 gives the
  binary64 product 56.99999999999999 (57 less 2 to the power -47), not 57.
\<close>

theorem onCapabilityDim_percentage:
  assumes "\<not> activeConnection s" and "loginState s" and "v \<noteq> NaN"
  shows "handle (Dim v) [] d s =
           (s\<lparr>activeConnectionDim := True\<rparr>, D_setOnoff (dimPercentage v),
            [SetCapabilityValue d ''onoff'' (CBool (jsless (Fin 0) (dimPercentage v)))])
       \<and> handle (Dim v) [Resolved] d s =
           (s\<lparr>activeConnectionDim := True\<rparr>, D_setSwitch,
            [SetCapabilityValue d ''onoff'' (CBool (jsless (Fin 0) (dimPercentage v))),
             CloudSetSwitch (data_id (devices s d)) (dimPercentage v)])
       \<and> dimPercentage v =
           (if jsless (Fin 0) (jsmul v (Fin 100)) \<and> jsless (jsmul v (Fin 100)) (Fin 10)
            then Fin 10 else jsmul v (Fin 100))
       \<and> jsless (dimPercentage v) (Fin 1) = (\<not> jsless (Fin 0) (dimPercentage v))
       \<and> dimPercentage (toDouble 0) = Fin 0 \<and> dimPercentage (toDouble (5 / 100)) = Fin 10
       \<and> dimPercentage (toDouble (1 / 2)) = Fin 50 \<and> dimPercentage (toDouble 1) = Fin 100
       \<and> dimPercentage (toDouble (57 / 100)) = Fin (8022036836253695 / 140737488355328)"
proof -
  note st = onCapabilityDim_start_dispatched [OF assms, of d]
  have first: "handle (Dim v) [] d s =
           (s\<lparr>activeConnectionDim := True\<rparr>, D_setOnoff (dimPercentage v),
            [SetCapabilityValue d ''onoff'' (CBool (jsless (Fin 0) (dimPercentage v)))])"
    by (simp add: handle_def st)
  have sent: "handle (Dim v) [Resolved] d s =
           (s\<lparr>activeConnectionDim := True\<rparr>, D_setSwitch,
            [SetCapabilityValue d ''onoff'' (CBool (jsless (Fin 0) (dimPercentage v))),
             CloudSetSwitch (data_id (devices s d)) (dimPercentage v)])"
    by (simp add: handle_def st)
  have clamp: "dimPercentage v =
           (if jsless (Fin 0) (jsmul v (Fin 100)) \<and> jsless (jsmul v (Fin 100)) (Fin 10)
            then Fin 10 else jsmul v (Fin 100))"
    by (simp add: dimPercentage_def Let_def)
  from first sent clamp dimPercentage_below_one [OF assms(3)] dimPercentage_vectors
  show ?thesis by blast
qed

theorem onCapabilityDim_percentage_witness:
  "handle (Dim (toDouble (5 / 100))) [Resolved] 1 home =
     (home\<lparr>activeConnectionDim := True\<rparr>, D_setSwitch,
      [SetCapabilityValue 1 ''onoff'' (CBool True), CloudSetSwitch ''stone-2'' (Fin 10)])"
proof -
  have g: "\<not> activeConnection home" and l: "loginState home"
    by (simp_all add: home_def)
  have n: "toDouble (5 / 100) \<noteq> NaN" by (rule toDouble_not_NaN)
  have p: "dimPercentage (toDouble (5 / 100)) = Fin 10" by (rule dimPercentage_vectors)
  have i: "data_id (devices home 1) = ''stone-2''" by (simp add: home_def lamp_def)
  from onCapabilityDim_percentage [OF g l n, of 1] show ?thesis
    by (simp only: p i) simp
qed

subsection \<open>Switching: cloud first, one radio attempt\<close>

lemma syncDim_phase:
  "syncDim v d s = (s1, p1, cs) \<Longrightarrow>
     \<not> dimInFlight p1 \<and> 8 \<le> stage p1
     \<and> (cs = [] \<or> (\<exists>c. cs = [c] \<and> phase c = stage p1 \<and> phase c = 8))"
  by (auto simp add: syncDim_def split: if_splits)

lemma switchBLE_start_phase:
  "switchBLE_start v d s = (s1, p1, cs) \<Longrightarrow>
     \<not> dimInFlight p1 \<and> (\<exists>c. cs = [c] \<and> phase c = stage p1 \<and> 0 < stage p1)"
  by (auto simp add: switchBLE_start_def getKeys_start_def findCrownstone_call_def Let_def
      split: if_splits)

lemma getKeys_step_phase:
  "step r (O_getKeys v k) d s = (s1, p1, cs) \<Longrightarrow>
     \<not> dimInFlight p1 \<and> ((cs = [] \<and> stage (O_getKeys v k) \<le> stage p1)
        \<or> (\<exists>c. cs = [c] \<and> phase c = stage p1 \<and> stage (O_getKeys v k) < stage p1))"
  by (cases k; cases r) (auto simp add: findCrownstone_call_def Let_def)

text \<open>
  A block of the on/off handler issues at most one external call, and that call lies
  strictly later in the handler than the one awaited before.
\<close>

lemma step_phase:
  assumes "step r p d s = (s1, p1, cs)" and "\<not> dimInFlight p"
  shows "\<not> dimInFlight p1 \<and> ((cs = [] \<and> stage p \<le> stage p1)
        \<or> (\<exists>c. cs = [c] \<and> phase c = stage p1 \<and> stage p < stage p1))"
proof (cases p)
  case (O_getKeys v k)
  with assms getKeys_step_phase show ?thesis by blast
next
  case (O_switchCloud v)
  with assms show ?thesis
    by (cases r) (auto dest: syncDim_phase switchBLE_start_phase)
next
  case (O_find v)
  with assms show ?thesis
    by (cases r) (auto split: option.splits)
next
  case (O_connect v)
  with assms show ?thesis
    by (cases r) (auto dest!: syncDim_phase)
next
  case (O_setSwitchState v)
  with assms show ?thesis
    by (cases r) (auto dest!: syncDim_phase)
next
  case (O_controlDisconnect v)
  with assms show ?thesis
    by (cases r) (auto dest!: syncDim_phase)
next
  case (O_disconnect v)
  with assms show ?thesis
    by (cases r) (auto dest!: syncDim_phase)
next
  case (O_setDim v)
  with assms show ?thesis
    by (cases r) auto
qed (use assms in auto)

lemma run_phase:
  "run rs d (s, p) = (s', p', cs) \<Longrightarrow> \<not> dimInFlight p \<Longrightarrow>
     sorted_wrt (<) (map phase cs) \<and> (\<forall>c\<in>set cs. stage p < phase c) \<and> stage p \<le> stage p'"
proof (induction rs arbitrary: s p s' p' cs)
  case Nil
  then show ?case by simp
next
  case (Cons r rs)
  obtain s1 p1 c1 where st: "step r p d s = (s1, p1, c1)" by (metis prod_cases3)
  obtain s2 p2 c2 where rn: "run rs d (s1, p1) = (s2, p2, c2)" by (metis prod_cases3)
  from Cons.prems(1) st rn have eq: "s' = s2" "p' = p2" "cs = c1 @ c2" by simp_all
  from step_phase [OF st Cons.prems(2)]
  have nd: "\<not> dimInFlight p1"
    and c1: "(c1 = [] \<and> stage p \<le> stage p1)
        \<or> (\<exists>c. c1 = [c] \<and> phase c = stage p1 \<and> stage p < stage p1)"
    by simp_all
  from Cons.IH [OF rn nd]
  have ih: "sorted_wrt (<) (map phase c2)" "\<forall>c\<in>set c2. stage p1 < phase c" "stage p1 \<le> stage p2"
    by simp_all
  from c1 ih show ?case unfolding eq by (auto simp add: sorted_wrt_append)
qed

lemma run_no_radio:
  assumes "\<not> dimInFlight p" and "7 \<le> stage p"
  shows "filter radioAttempt (calls (run rs d (s, p))) = []"
proof -
  obtain s' p' cs where rn: "run rs d (s, p) = (s', p', cs)" by (metis prod_cases3)
  from run_phase [OF rn assms(1)] assms(2) have "\<forall>c\<in>set cs. 7 < phase c" by auto
  then have "filter radioAttempt cs = []" by (auto simp add: radioAttempt_def filter_empty_conv)
  with rn show ?thesis by (simp add: calls_def)
qed

lemma syncDim_no_radio:
  "filter radioAttempt (calls (run rs d (fst (syncDim v d s), fst (snd (syncDim v d s))))) = []
   \<and> filter radioAttempt (snd (snd (syncDim v d s))) = []"
proof -
  obtain s1 p1 c1 where sd: "syncDim v d s = (s1, p1, c1)" by (metis prod_cases3)
  from syncDim_phase [OF sd] have nd: "\<not> dimInFlight p1" and st: "7 \<le> stage p1"
    and c1: "filter radioAttempt c1 = []"
    by (auto simp add: radioAttempt_def)
  from run_no_radio [OF nd st] c1 sd show ?thesis by simp
qed

text \<open>Once the handler has reached its last part, no call of the radio fallback follows.\<close>

lemma run_after_syncDim:
  assumes "step r p d s = syncDim v d s"
  shows "filter radioAttempt (calls (run (r # rs) d (s, p))) = []"
proof -
  obtain s1 p1 c1 where sd: "syncDim v d s = (s1, p1, c1)" by (metis prod_cases3)
  obtain s2 p2 c2 where rn: "run rs d (s1, p1) = (s2, p2, c2)" by (metis prod_cases3)
  from syncDim_no_radio [of rs d v s] sd rn
  have "filter radioAttempt c2 = []" "filter radioAttempt c1 = []"
    by (simp_all add: calls_def)
  with assms sd rn show ?thesis by (simp add: calls_def)
qed

lemma onoff_dispatched:
  assumes "\<not> activeConnection s" and "loginState s"
  shows "onCapabilityOnoff_start v d s =
     (s\<lparr>activeConnection := True\<rparr>, O_switchCloud v, [switchCloud_call v d s])"
  using assms by (simp add: onCapabilityOnoff_start_def switchCloud_call_def Let_def)

lemma handle_onoff_phases:
  assumes "\<not> activeConnection s" and "loginState s"
  shows "\<exists>cs. calls (handle (OnOff v) rs d s) = switchCloud_call v d s # cs
           \<and> sorted_wrt (<) (map phase (switchCloud_call v d s # cs))"
proof -
  let ?s0 = "s\<lparr>activeConnection := True\<rparr>"
  obtain s' p' cs where rn: "run rs d (?s0, O_switchCloud v) = (s', p', cs)"
    by (metis prod_cases3)
  from run_phase [OF rn]
  have srt: "sorted_wrt (<) (map phase cs)" and gt: "\<forall>c\<in>set cs. 0 < phase c"
    by simp_all
  have ph: "phase (switchCloud_call v d s) = 0" by (simp add: switchCloud_call_def)
  from rn have "calls (handle (OnOff v) rs d s) = switchCloud_call v d s # cs"
    by (simp add: handle_def calls_def onoff_dispatched [OF assms])
  with srt gt ph show ?thesis by auto
qed

lemma handle_onoff_cloud_ok:
  assumes "\<not> activeConnection s" and "loginState s"
  shows "filter radioAttempt (calls (handle (OnOff v) (Resolved # rs) d s)) = []"
proof -
  let ?s0 = "s\<lparr>activeConnection := True\<rparr>"
  have "step Resolved (O_switchCloud v) d ?s0 = syncDim v d ?s0" by simp
  from run_after_syncDim [OF this, of rs]
  have r: "filter radioAttempt (calls (run (Resolved # rs) d (?s0, O_switchCloud v))) = []" .
  have c: "\<not> radioAttempt (switchCloud_call v d s)"
    by (simp add: radioAttempt_def switchCloud_call_def)
  obtain s' p' cs where rn: "run (Resolved # rs) d (?s0, O_switchCloud v) = (s', p', cs)"
    by (metis prod_cases3)
  with r have "filter radioAttempt cs = []" by (simp add: calls_def)
  with rn c show ?thesis
    by (simp add: handle_def calls_def onoff_dispatched [OF assms] del: run.simps)
qed

lemma handle_onoff_cloud_failed:
  assumes "\<not> activeConnection s" and "loginState s"
  shows "calls (handle (OnOff v) [Rejected] d s) =
     [switchCloud_call v d s,
      if keysObtained (devices s d) then BleFind (uuid_of (data_address (devices s d))) 10000
      else GetSphereId]"
  by (simp add: handle_def calls_def onoff_dispatched [OF assms] switchBLE_start_def
      getKeys_start_def keysObtained_def findCrownstone_call_def Let_def)

lemma radio_failure_terminal:
  "filter radioAttempt (calls (run (Rejected # rs) d (s, O_connect v))) = []
   \<and> filter radioAttempt (calls (run (Rejected # rs) d (s, O_setSwitchState v))) = []
   \<and> filter radioAttempt (calls (run (Rejected # rs) d (s, O_controlDisconnect v))) = []
   \<and> filter radioAttempt (calls (run (Rejected # rs) d (s, O_disconnect v))) = []"
proof -
  have a: "step Rejected (O_connect v) d s = syncDim v d s" by simp
  have b: "step Rejected (O_setSwitchState v) d s = syncDim v d s" by simp
  have c: "step Rejected (O_controlDisconnect v) d s = syncDim v d s" by simp
  have e: "step Rejected (O_disconnect v) d s = syncDim v d s" by simp
  from run_after_syncDim [OF a] run_after_syncDim [OF b] run_after_syncDim [OF c]
    run_after_syncDim [OF e]
  show ?thesis by blast
qed

lemma storeKeys_keeps:
  "data_id (storeKeys ks dv) = data_id dv \<and> data_address (storeKeys ks dv) = data_address dv
   \<and> capabilities (storeKeys ks dv) = capabilities dv \<and> state (storeKeys ks dv) = state dv
   \<and> settings_adminKey (storeKeys ks dv) = settings_adminKey dv
   \<and> settings_memberKey (storeKeys ks dv) = settings_memberKey dv
   \<and> settings_basicKey (storeKeys ks dv) = settings_basicKey dv"
  by (induction ks arbitrary: dv) (simp_all add: storeKey_def)

lemma radio_attempt_keys_cached:
  assumes "\<not> activeConnection s" and "loginState s" and "keysObtained (devices s d)"
  shows "calls (handle (OnOff v) [Rejected, Found a, Resolved, Resolved, Resolved, Resolved] d s) =
     [switchCloud_call v d s, BleFind (uuid_of (data_address (devices s d))) 10000, BleConnect d a,
      BleSetSwitchState d (if v then 1 else 0), BleControlDisconnect d, BleDisconnect d]
     @ (if ''dim'' \<in> set (capabilities (devices s d))
        then [SetCapabilityValue d ''dim'' (CNum (if v then 1 else 0))] else [])"
  using assms(3)
  by (cases a) (simp_all add: handle_def calls_def onoff_dispatched [OF assms(1,2)]
      switchBLE_start_def getKeys_start_def keysObtained_def findCrownstone_call_def syncDim_def
      Let_def)

lemma radio_attempt_keys_fetched:
  assumes "\<not> activeConnection s" and "loginState s" and "\<not> keysObtained (devices s d)"
  shows "calls (handle (OnOff v)
            [Rejected, SphereId sid, SphereKeys ks, Found a, Resolved, Resolved, Resolved, Resolved]
            d s) =
     [switchCloud_call v d s, GetSphereId, CloudSphereKeys sid,
      BleFind (uuid_of (data_address (devices s d))) 10000, BleConnect d a,
      BleSetSwitchState d (if v then 1 else 0), BleControlDisconnect d, BleDisconnect d]
     @ (if ''dim'' \<in> set (capabilities (devices s d))
        then [SetCapabilityValue d ''dim'' (CNum (if v then 1 else 0))] else [])"
  using assms(3)
  by (cases a) (simp_all add: handle_def calls_def onoff_dispatched [OF assms(1,2)]
      switchBLE_start_def getKeys_start_def keysObtained_def findCrownstone_call_def syncDim_def
      Let_def loadKeys_def storeKeys_keeps)

text \<open>
  Claim C2. For a dispatched on/off request, whatever the outcomes of the awaited
  operations: the first external call is the cloud switch, and the calls that follow are
  strictly ordered by their position in the handler, so that key retrieval, discovery,
  connect, the switch command and each disconnect happen at most once (no retry). When
  the cloud call is fulfilled no call of the radio fallback is made. When it is rejected
  the radio attempt begins (with key retrieval, or with discovery when the keys are
  cached), and with every step fulfilled it is key retrieval, discovery by the address
  with the 10000 ms bound, connect, the switch command and the two disconnects. A
  rejection at connect, at the switch command or at a disconnect ends the attempt: no
  further radio call follows.
\<close>

theorem onoff_cloud_first_one_radio_attempt:
  assumes "\<not> activeConnection s" and "loginState s"
  shows "(\<exists>cs. calls (handle (OnOff v) rs d s) = switchCloud_call v d s # cs
            \<and> sorted_wrt (<) (map phase (switchCloud_call v d s # cs)))
       \<and> filter radioAttempt (calls (handle (OnOff v) (Resolved # rs) d s)) = []
       \<and> calls (handle (OnOff v) [Rejected] d s) =
           [switchCloud_call v d s,
            if keysObtained (devices s d)
            then BleFind (uuid_of (data_address (devices s d))) 10000 else GetSphereId]
       \<and> (keysObtained (devices s d) \<longrightarrow>
            calls (handle (OnOff v) [Rejected, Found a, Resolved, Resolved, Resolved, Resolved] d s) =
              [switchCloud_call v d s, BleFind (uuid_of (data_address (devices s d))) 10000,
               BleConnect d a, BleSetSwitchState d (if v then 1 else 0), BleControlDisconnect d,
               BleDisconnect d]
              @ (if ''dim'' \<in> set (capabilities (devices s d))
                 then [SetCapabilityValue d ''dim'' (CNum (if v then 1 else 0))] else []))
       \<and> (\<not> keysObtained (devices s d) \<longrightarrow>
            calls (handle (OnOff v)
                [Rejected, SphereId sid, SphereKeys ks, Found a, Resolved, Resolved, Resolved,
                 Resolved] d s) =
              [switchCloud_call v d s, GetSphereId, CloudSphereKeys sid,
               BleFind (uuid_of (data_address (devices s d))) 10000, BleConnect d a,
               BleSetSwitchState d (if v then 1 else 0), BleControlDisconnect d, BleDisconnect d]
              @ (if ''dim'' \<in> set (capabilities (devices s d))
                 then [SetCapabilityValue d ''dim'' (CNum (if v then 1 else 0))] else []))
       \<and> filter radioAttempt (calls (run (Rejected # rs) d (s', O_connect v))) = []
       \<and> filter radioAttempt (calls (run (Rejected # rs) d (s', O_setSwitchState v))) = []
       \<and> filter radioAttempt (calls (run (Rejected # rs) d (s', O_controlDisconnect v))) = []
       \<and> filter radioAttempt (calls (run (Rejected # rs) d (s', O_disconnect v))) = []"
  using handle_onoff_phases [OF assms, of v rs d] handle_onoff_cloud_ok [OF assms, of v rs d]
    handle_onoff_cloud_failed [OF assms, of v d]
    radio_attempt_keys_cached [OF assms, of d v a]
    radio_attempt_keys_fetched [OF assms, of d v sid ks a]
    radio_failure_terminal [of rs d s' v]
  by blast

theorem onoff_cloud_first_one_radio_attempt_witness:
  "calls (handle (OnOff True)
      [Rejected, SphereId ''sphere-1'', SphereKeys sphereKeys3, Found (Some ''adv-2''), Resolved,
       Resolved, Resolved, Resolved] 1 home) =
     [CloudTurnOn ''stone-2'', GetSphereId, CloudSphereKeys ''sphere-1'',
      BleFind ''c4d0e3aa0103'' 10000, BleConnect 1 (Some ''adv-2''), BleSetSwitchState 1 1,
      BleControlDisconnect 1, BleDisconnect 1, SetCapabilityValue 1 ''dim'' (CNum 1)]
   \<and> filter radioAttempt (calls (handle (OnOff True) [Resolved, Resolved] 1 home)) = []
   \<and> calls (handle (OnOff False) [Rejected, Found None, Resolved, Resolved, Resolved, Resolved]
        1 keyedHome) =
     [CloudTurnOff ''stone-2'', BleFind ''c4d0e3aa0103'' 10000, BleConnect 1 None,
      BleSetSwitchState 1 0, BleControlDisconnect 1, BleDisconnect 1,
      SetCapabilityValue 1 ''dim'' (CNum 0)]"
proof -
  have g: "\<not> activeConnection home" and l: "loginState home"
    by (simp_all add: home_def)
  have k: "\<not> keysObtained (devices home 1)"
    by (simp add: home_def lamp_def keysObtained_def)
  have u: "uuid_of (data_address (devices home 1)) = ''c4d0e3aa0103''"
    by (simp add: home_def lamp_def uuid_of_def toLowerCase_def)
  have c: "switchCloud_call True 1 home = CloudTurnOn ''stone-2''"
    by (simp add: switchCloud_call_def home_def lamp_def)
  have m: "''dim'' \<in> set (capabilities (devices home 1))"
    by (simp add: home_def lamp_def)
  from onoff_cloud_first_one_radio_attempt [OF g l, of True "[Resolved]" 1 "Some ''adv-2''"
      "''sphere-1''" sphereKeys3 home] k
  have fetched: "calls (handle (OnOff True)
      [Rejected, SphereId ''sphere-1'', SphereKeys sphereKeys3, Found (Some ''adv-2''), Resolved,
       Resolved, Resolved, Resolved] 1 home) =
     [CloudTurnOn ''stone-2'', GetSphereId, CloudSphereKeys ''sphere-1'',
      BleFind ''c4d0e3aa0103'' 10000, BleConnect 1 (Some ''adv-2''), BleSetSwitchState 1 1,
      BleControlDisconnect 1, BleDisconnect 1, SetCapabilityValue 1 ''dim'' (CNum 1)]
   \<and> filter radioAttempt (calls (handle (OnOff True) [Resolved, Resolved] 1 home)) = []"
    by (simp only: u c m) simp
  have g': "\<not> activeConnection keyedHome" and l': "loginState keyedHome"
    by (simp_all add: keyedHome_def home_def)
  have k': "keysObtained (devices keyedHome 1)"
    by (simp add: keyedHome_def loadKeys_def keysObtained_def)
  have u': "uuid_of (data_address (devices keyedHome 1)) = ''c4d0e3aa0103''"
    by (simp add: keyedHome_def loadKeys_def lamp_def uuid_of_def toLowerCase_def)
  have c': "switchCloud_call False 1 keyedHome = CloudTurnOff ''stone-2''"
    by (simp add: switchCloud_call_def keyedHome_def loadKeys_def lamp_def)
  have m': "''dim'' \<in> set (capabilities (devices keyedHome 1))"
    by (simp add: keyedHome_def loadKeys_def lamp_def)
  from onoff_cloud_first_one_radio_attempt [OF g' l', of False "[]" 1 None "[]" "[]" keyedHome]
    k'
  have cached: "calls (handle (OnOff False)
      [Rejected, Found None, Resolved, Resolved, Resolved, Resolved] 1 keyedHome) =
     [CloudTurnOff ''stone-2'', BleFind ''c4d0e3aa0103'' 10000, BleConnect 1 None,
      BleSetSwitchState 1 0, BleControlDisconnect 1, BleDisconnect 1,
      SetCapabilityValue 1 ''dim'' (CNum 0)]"
    by (simp only: u' c' m') simp
  from fetched cached show ?thesis by blast
qed

subsection \<open>Discovery that finds nothing\<close>

text \<open>
  Claim C10. Discovery is called with the bound of 10000 ms. When it is rejected or
  yields nothing, \<^verbatim>\<open>findCrownstone\<close> returns \<^verbatim>\<open>null\<close> and raises no error;
  \<^verbatim>\<open>switchBLE\<close> does not look at the result and calls connect with \<^verbatim>\<open>null\<close>. Only
  a rejection of that connect ends the radio attempt: the handler goes on to its last
  part and no further radio call is made.
\<close>

theorem discovery_null_reaches_connect:
  "findCrownstone_call d s = BleFind (uuid_of (data_address (devices s d))) 10000
   \<and> findCrownstone_result Rejected = Some None
   \<and> findCrownstone_result (Found None) = Some None
   \<and> step Rejected (O_find v) d s = (s, O_connect v, [BleConnect d None])
   \<and> step (Found None) (O_find v) d s = (s, O_connect v, [BleConnect d None])
   \<and> step Rejected (O_connect v) d s = syncDim v d s
   \<and> filter radioAttempt (calls (run (Rejected # rs) d (s, O_connect v))) = []"
proof -
  have "step Rejected (O_connect v) d s = syncDim v d s" by simp
  from run_after_syncDim [OF this, of rs] show ?thesis
    by (simp add: findCrownstone_call_def)
qed

subsection \<open>Key retrieval\<close>

text \<open>The loop of \<^verbatim>\<open>getKeys\<close> partitions the fetched keys by their type.\<close>

lemma storeKeys_partition:
  "adminKey (storeKeys ks dv) = keyOfType ''ADMIN_KEY'' ks (adminKey dv)
   \<and> memberKey (storeKeys ks dv) = keyOfType ''MEMBER_KEY'' ks (memberKey dv)
   \<and> basicKey (storeKeys ks dv) = keyOfType ''BASIC_KEY'' ks (basicKey dv)"
  by (induction ks arbitrary: dv) (simp_all add: storeKey_def keyOfType_def)

lemma keyOfType_present:
  "\<exists>k\<in>set ks. keyType k = ty \<Longrightarrow> isKey (keyOfType ty ks old)"
  by (auto simp add: keyOfType_def filter_empty_conv)

lemma isKey_not_null: "isKey v \<Longrightarrow> v \<noteq> JNull"
  by (cases v) simp_all

lemma keysLoaded_obtained: "keysLoaded dv \<Longrightarrow> keysObtained dv"
  by (simp add: keysLoaded_def keysObtained_def isKey_not_null)

lemma getKeys_run_finished:
  "getKeys_run rs d (s, K_Resolved) = (s, K_Resolved, [])"
  by (induction rs) simp_all

lemma getKeys_cached:
  "keysObtained (devices s d) \<Longrightarrow> getKeys rs d s = (s, K_Resolved, [])"
  by (simp add: getKeys_def getKeys_start_def getKeys_run_finished)

lemma getKeys_fetch:
  assumes "\<not> keysObtained (devices s d)"
  shows "getKeys [] d s = (s, K_SphereId, [GetSphereId])"
    and "getKeys [Rejected] d s = (s, K_Rejected, [GetSphereId])"
    and "getKeys [SphereId sid] d s = (s, K_Keys, [GetSphereId, CloudSphereKeys sid])"
    and "getKeys [SphereId sid, Rejected] d s = (s, K_Rejected, [GetSphereId, CloudSphereKeys sid])"
    and "getKeys [SphereId sid, SphereKeys ks] d s =
       (s\<lparr>devices := (devices s)(d :=
            (storeKeys ks (devices s d))
              \<lparr>settings_adminKey := keyOfType ''ADMIN_KEY'' ks (adminKey (devices s d)),
               settings_memberKey := keyOfType ''MEMBER_KEY'' ks (memberKey (devices s d)),
               settings_basicKey := keyOfType ''BASIC_KEY'' ks (basicKey (devices s d))\<rparr>)\<rparr>,
        K_Resolved, [GetSphereId, CloudSphereKeys sid])"
  using assms
  by (simp_all add: getKeys_def getKeys_start_def Let_def loadKeys_def storeKeys_partition)

lemma keyOfType_isKey: "isKey old \<Longrightarrow> isKey (keyOfType ty ks old)"
  by (simp add: keyOfType_def)

lemma getKeys_step_keysKept:
  assumes "keysKept (devices s d')"
  shows "keysKept (devices (fst (getKeys_step r k d s)) d')"
proof (cases "\<exists>ks. r = SphereKeys ks \<and> k = K_Keys")
  case True
  then obtain ks where r: "r = SphereKeys ks" and k: "k = K_Keys" by blast
  show ?thesis
  proof (cases "d' = d")
    case True
    with assms show ?thesis
      by (simp add: r k Let_def loadKeys_def keysKept_def keysLoaded_def storeKeys_partition
          keyOfType_isKey)
  next
    case False
    with assms show ?thesis by (simp add: r k Let_def)
  qed
next
  case False
  with assms show ?thesis by (cases k; cases r) simp_all
qed

lemma syncDim_devices: "devices (fst (syncDim v d s)) = devices s"
  by (simp add: syncDim_def)

lemma switchBLE_start_keysKept:
  "keysKept (devices s d') \<Longrightarrow> keysKept (devices (fst (switchBLE_start v d s)) d')"
  by (auto simp add: switchBLE_start_def getKeys_start_def Let_def keysKept_def keysLoaded_def)

text \<open>No block of a handler takes a key from a device object whose keys are kept.\<close>

lemma step_keysKept:
  assumes "keysKept (devices s d')"
  shows "keysKept (devices (fst (step r p d s)) d')"
proof (cases p)
  case (O_getKeys v k)
  with getKeys_step_keysKept [OF assms, of r k d] show ?thesis
    by (simp add: case_prod_beta)
next
  case (O_switchCloud v)
  with assms show ?thesis
    by (cases r) (simp_all add: syncDim_devices switchBLE_start_keysKept)
next
  case (O_find v)
  with assms show ?thesis
    by (cases r) (simp_all split: option.splits)
next
  case (O_connect v)
  with assms show ?thesis
    by (cases r) (simp_all add: syncDim_devices)
next
  case (O_setSwitchState v)
  with assms show ?thesis
    by (cases r) (simp_all add: syncDim_devices)
next
  case (O_controlDisconnect v)
  with assms show ?thesis
    by (cases r) (simp_all add: syncDim_devices)
next
  case (O_disconnect v)
  with assms show ?thesis
    by (cases r) (simp_all add: syncDim_devices)
next
  case (O_setDim v)
  with assms show ?thesis
    by (cases r) simp_all
next
  case Done
  with assms show ?thesis by (cases r) simp_all
next
  case (D_setOnoff x)
  with assms show ?thesis by (cases r) simp_all
next
  case D_setSwitch
  with assms show ?thesis by (cases r) simp_all
qed

lemma start_devices: "devices (fst (start rq d s)) = devices s"
  by (cases rq) (simp_all add: onCapabilityOnoff_start_def onCapabilityDim_start_def Let_def)

lemma exec1_keysKept:
  assumes "keysKept (devices (fst c) d')"
  shows "keysKept (devices (fst (exec1 a c)) d')"
proof -
  obtain s ts tr where c: "c = (s, ts, tr)" by (metis prod_cases3)
  show ?thesis
  proof (cases a)
    case (Invoke d rq)
    with assms c start_devices [of rq d s] show ?thesis
      by (simp add: case_prod_beta)
  next
    case (Deliver i r)
    with assms c step_keysKept [of s d' r "snd (ts ! i)" "fst (ts ! i)"] show ?thesis
      by (simp add: case_prod_beta)
  qed
qed

lemma exec_keysKept:
  "keysKept (devices (fst c) d') \<Longrightarrow> keysKept (devices (fst (exec as c)) d')"
  by (induction as arbitrary: c) (simp_all add: exec1_keysKept)

text \<open>
  As the claim is worded it fails twice. The cache is the radio settings of one device
  object, not of the sphere: after the lamp has fetched and loaded the three keys, the
  first key retrieval of the plug, in the same installation and sphere, asks the cloud
  again. And a fetch that brings only an admin key leaves the member and basic slots
  \<^verbatim>\<open>undefined\<close>, which the guard (a comparison with \<^verbatim>\<open>null\<close>) takes for obtained:
  the next call fetches nothing although two key types are not cached.
\<close>

theorem getKeys_per_sphere_counterexample:
  "keysLoaded (devices (fst (getKeys [SphereId ''sphere-1'', SphereKeys sphereKeys3] 1 home)) 1)
   \<and> getKeys [] 0 (fst (getKeys [SphereId ''sphere-1'', SphereKeys sphereKeys3] 1 home))
       = (fst (getKeys [SphereId ''sphere-1'', SphereKeys sphereKeys3] 1 home), K_SphereId,
          [GetSphereId])
   \<and> settings_memberKey
         (devices (fst (getKeys [SphereId ''sphere-1'',
             SphereKeys [\<lparr>keyType = ''ADMIN_KEY'', key = ''a1''\<rparr>]] 1 home)) 1)
       = JUndefined
   \<and> getKeys [] 1
         (fst (getKeys [SphereId ''sphere-1'',
             SphereKeys [\<lparr>keyType = ''ADMIN_KEY'', key = ''a1''\<rparr>]] 1 home))
       = (fst (getKeys [SphereId ''sphere-1'',
             SphereKeys [\<lparr>keyType = ''ADMIN_KEY'', key = ''a1''\<rparr>]] 1 home), K_Resolved, [])"
proof -
  have n: "\<not> keysObtained (devices home 1)"
    by (simp add: home_def lamp_def keysObtained_def)
  note full = getKeys_fetch(5) [OF n, of "''sphere-1''" sphereKeys3]
  note part = getKeys_fetch(5) [OF n, of "''sphere-1''" "[\<lparr>keyType = ''ADMIN_KEY'', key = ''a1''\<rparr>]"]
  have a: "keysLoaded
      (devices (fst (getKeys [SphereId ''sphere-1'', SphereKeys sphereKeys3] 1 home)) 1)"
    by (simp only: full) (simp add: keysLoaded_def keyOfType_def sphereKeys3_def)
  have "\<not> keysObtained
      (devices (fst (getKeys [SphereId ''sphere-1'', SphereKeys sphereKeys3] 1 home)) 0)"
    by (simp only: full) (simp add: home_def plug_def keysObtained_def)
  from getKeys_fetch(1) [OF this]
  have b: "getKeys [] 0 (fst (getKeys [SphereId ''sphere-1'', SphereKeys sphereKeys3] 1 home))
       = (fst (getKeys [SphereId ''sphere-1'', SphereKeys sphereKeys3] 1 home), K_SphereId,
          [GetSphereId])" .
  have c: "settings_memberKey
         (devices (fst (getKeys [SphereId ''sphere-1'',
             SphereKeys [\<lparr>keyType = ''ADMIN_KEY'', key = ''a1''\<rparr>]] 1 home)) 1)
       = JUndefined"
    by (simp only: part) (simp add: keyOfType_def home_def lamp_def)
  have "keysObtained
      (devices (fst (getKeys [SphereId ''sphere-1'',
             SphereKeys [\<lparr>keyType = ''ADMIN_KEY'', key = ''a1''\<rparr>]] 1 home)) 1)"
    by (simp only: part) (simp add: keyOfType_def home_def lamp_def keysObtained_def)
  from getKeys_cached [OF this]
  have e: "getKeys [] 1
         (fst (getKeys [SphereId ''sphere-1'',
             SphereKeys [\<lparr>keyType = ''ADMIN_KEY'', key = ''a1''\<rparr>]] 1 home))
       = (fst (getKeys [SphereId ''sphere-1'',
             SphereKeys [\<lparr>keyType = ''ADMIN_KEY'', key = ''a1''\<rparr>]] 1 home), K_Resolved, [])" .
  from a b c e show ?thesis by blast
qed

text \<open>
  Claim C6, amended. The keys are cached per device object. When the three key slots of
  a device's radio settings hold keys, \<^verbatim>\<open>getKeys\<close> on that device makes no remote call
  and leaves the keys as they are, whatever would be answered. When a slot is still
  \<^verbatim>\<open>null\<close> it asks for the sphere id, fetches the keys of that sphere, and loads into
  the three slots of this device, and of no other, the keys partitioned by type (admin,
  member, basic). When the fetched keys hold an entry of each type the device's keys are
  kept from then on; and kept keys stay kept whatever handlers run afterwards, in any
  interleaving, so that \<^verbatim>\<open>getKeys\<close> on that device makes no remote call in any
  configuration reached later.
\<close>

theorem getKeys_per_device_cache:
  "(keysLoaded (devices s d) \<longrightarrow> getKeys rs d s = (s, K_Resolved, []))
   \<and> (\<not> keysObtained (devices s d) \<longrightarrow>
        getKeys [] d s = (s, K_SphereId, [GetSphereId])
      \<and> getKeys [SphereId sid] d s = (s, K_Keys, [GetSphereId, CloudSphereKeys sid])
      \<and> snd (getKeys [SphereId sid, SphereKeys ks] d s)
          = (K_Resolved, [GetSphereId, CloudSphereKeys sid])
      \<and> settings_adminKey (devices (fst (getKeys [SphereId sid, SphereKeys ks] d s)) d)
          = keyOfType ''ADMIN_KEY'' ks (adminKey (devices s d))
      \<and> settings_memberKey (devices (fst (getKeys [SphereId sid, SphereKeys ks] d s)) d)
          = keyOfType ''MEMBER_KEY'' ks (memberKey (devices s d))
      \<and> settings_basicKey (devices (fst (getKeys [SphereId sid, SphereKeys ks] d s)) d)
          = keyOfType ''BASIC_KEY'' ks (basicKey (devices s d))
      \<and> (\<forall>d'. d' \<noteq> d \<longrightarrow>
            devices (fst (getKeys [SphereId sid, SphereKeys ks] d s)) d' = devices s d')
      \<and> ((\<exists>k\<in>set ks. keyType k = ''ADMIN_KEY'') \<and> (\<exists>k\<in>set ks. keyType k = ''MEMBER_KEY'')
           \<and> (\<exists>k\<in>set ks. keyType k = ''BASIC_KEY'') \<longrightarrow>
          keysKept (devices (fst (getKeys [SphereId sid, SphereKeys ks] d s)) d)
          \<and> getKeys rs d (fst (getKeys [SphereId sid, SphereKeys ks] d s))
            = (fst (getKeys [SphereId sid, SphereKeys ks] d s), K_Resolved, [])))
   \<and> (keysKept (devices s d) \<longrightarrow>
        keysKept (devices (fst (exec as (s, ts, tr))) d)
      \<and> getKeys rs d (fst (exec as (s, ts, tr))) = (fst (exec as (s, ts, tr)), K_Resolved, []))"
proof (intro conjI impI allI)
  assume "keysLoaded (devices s d)"
  then show "getKeys rs d s = (s, K_Resolved, [])"
    by (simp add: getKeys_cached keysLoaded_obtained)
next
  assume n: "\<not> keysObtained (devices s d)"
  note f = getKeys_fetch [OF n]
  show "getKeys [] d s = (s, K_SphereId, [GetSphereId])" by (rule f)
  show "getKeys [SphereId sid] d s = (s, K_Keys, [GetSphereId, CloudSphereKeys sid])" by (rule f)
  show "snd (getKeys [SphereId sid, SphereKeys ks] d s)
      = (K_Resolved, [GetSphereId, CloudSphereKeys sid])"
    by (simp add: f(5))
  show "settings_adminKey (devices (fst (getKeys [SphereId sid, SphereKeys ks] d s)) d)
          = keyOfType ''ADMIN_KEY'' ks (adminKey (devices s d))"
    by (simp add: f(5))
  show "settings_memberKey (devices (fst (getKeys [SphereId sid, SphereKeys ks] d s)) d)
          = keyOfType ''MEMBER_KEY'' ks (memberKey (devices s d))"
    by (simp add: f(5))
  show "settings_basicKey (devices (fst (getKeys [SphereId sid, SphereKeys ks] d s)) d)
          = keyOfType ''BASIC_KEY'' ks (basicKey (devices s d))"
    by (simp add: f(5))
  show "devices (fst (getKeys [SphereId sid, SphereKeys ks] d s)) d' = devices s d'"
    if "d' \<noteq> d" for d'
    using that by (simp add: f(5))
  assume a: "(\<exists>k\<in>set ks. keyType k = ''ADMIN_KEY'') \<and> (\<exists>k\<in>set ks. keyType k = ''MEMBER_KEY'')
           \<and> (\<exists>k\<in>set ks. keyType k = ''BASIC_KEY'')"
  then have kept: "keysKept (devices (fst (getKeys [SphereId sid, SphereKeys ks] d s)) d)"
    by (simp add: f(5) keysKept_def keysLoaded_def storeKeys_partition keyOfType_present)
  then show "keysKept (devices (fst (getKeys [SphereId sid, SphereKeys ks] d s)) d)" .
  from kept have "keysObtained (devices (fst (getKeys [SphereId sid, SphereKeys ks] d s)) d)"
    by (simp add: keysKept_def keysLoaded_obtained)
  then show "getKeys rs d (fst (getKeys [SphereId sid, SphereKeys ks] d s))
            = (fst (getKeys [SphereId sid, SphereKeys ks] d s), K_Resolved, [])"
    by (rule getKeys_cached)
next
  assume "keysKept (devices s d)"
  then have kept: "keysKept (devices (fst (exec as (s, ts, tr))) d)"
    using exec_keysKept [of "(s, ts, tr)" d as] by simp
  then show "keysKept (devices (fst (exec as (s, ts, tr))) d)" .
  from kept have "keysObtained (devices (fst (exec as (s, ts, tr))) d)"
    by (simp add: keysKept_def keysLoaded_obtained)
  then show "getKeys rs d (fst (exec as (s, ts, tr))) = (fst (exec as (s, ts, tr)), K_Resolved, [])"
    by (rule getKeys_cached)
qed

theorem getKeys_per_device_cache_witness:
  "getKeys [Rejected] 1 keyedHome = (keyedHome, K_Resolved, [])
   \<and> getKeys [SphereId ''sphere-1''] 1 home
       = (home, K_Keys, [GetSphereId, CloudSphereKeys ''sphere-1''])
   \<and> settings_adminKey
         (devices (fst (getKeys [SphereId ''sphere-1'', SphereKeys sphereKeys3] 1 home)) 1)
       = JStr ''a1''
   \<and> getKeys [Rejected] 1 (fst (getKeys [SphereId ''sphere-1'', SphereKeys sphereKeys3] 1 home))
       = (fst (getKeys [SphereId ''sphere-1'', SphereKeys sphereKeys3] 1 home), K_Resolved, [])
   \<and> getKeys [Rejected] 1
         (fst (exec [Invoke 1 (OnOff True), Deliver 0 Rejected] (keyedHome, [], [])))
       = (fst (exec [Invoke 1 (OnOff True), Deliver 0 Rejected] (keyedHome, [], [])),
          K_Resolved, [])"
proof -
  have kk: "keysKept (devices keyedHome 1)"
    by (simp add: keyedHome_def loadKeys_def lamp_def keysKept_def keysLoaded_def)
  then have c: "keysLoaded (devices keyedHome 1)" by (simp add: keysKept_def)
  have n: "\<not> keysObtained (devices home 1)"
    by (simp add: home_def lamp_def keysObtained_def)
  have p: "(\<exists>k\<in>set sphereKeys3. keyType k = ''ADMIN_KEY'')
      \<and> (\<exists>k\<in>set sphereKeys3. keyType k = ''MEMBER_KEY'')
      \<and> (\<exists>k\<in>set sphereKeys3. keyType k = ''BASIC_KEY'')"
    by (simp add: sphereKeys3_def)
  have a: "keyOfType ''ADMIN_KEY'' sphereKeys3 (adminKey (devices home 1)) = JStr ''a1''"
    by (simp add: keyOfType_def sphereKeys3_def)
  from getKeys_per_device_cache [of keyedHome 1 "[Rejected]" _ _
      "[Invoke 1 (OnOff True), Deliver 0 Rejected]" "[]" "[]"] c kk
    getKeys_per_device_cache [of home 1 "[Rejected]" "''sphere-1''" sphereKeys3] n p a
  show ?thesis by simp
qed

subsection \<open>The in-flight flags\<close>

lemma switchCount_append:
  "switchCount (ts @ [t]) = switchCount ts + (if switchInFlight (snd t) then 1 else 0)"
  by (simp add: switchCount_def)

lemma switchCount_update:
  "i < length ts \<Longrightarrow>
     switchCount (ts[i := t]) + (if switchInFlight (snd (ts ! i)) then 1 else 0)
       = switchCount ts + (if switchInFlight (snd t) then 1 else 0)"
proof (induction ts arbitrary: i)
  case Nil
  then show ?case by simp
next
  case (Cons x xs)
  then show ?case
    by (cases i) (auto simp add: switchCount_def)
qed

lemma syncDim_flag:
  "syncDim v d s = (s1, p1, cs) \<Longrightarrow>
     (switchInFlight p1 \<and> activeConnection s1 = activeConnection s) \<or> p1 = Done"
  by (auto simp add: syncDim_def split: if_splits)

text \<open>
  A block of the on/off handler leaves \<^verbatim>\<open>activeConnection\<close> alone unless the handler
  ends with it; a block of the dim handler never writes it.
\<close>

lemma step_switch_flag:
  assumes "step r p d s = (s1, p1, cs)" and "switchInFlight p"
  shows "(switchInFlight p1 \<and> activeConnection s1 = activeConnection s) \<or> p1 = Done"
proof (cases p)
  case (O_getKeys v k)
  with assms show ?thesis
    by (cases k; cases r) (auto simp add: Let_def)
next
  case (O_switchCloud v)
  with assms show ?thesis
    by (cases r)
      (auto dest: syncDim_flag simp add: switchBLE_start_def getKeys_start_def Let_def
        split: if_splits)
next
  case (O_find v)
  with assms show ?thesis
    by (cases r) (auto split: option.splits)
next
  case (O_connect v)
  with assms show ?thesis
    by (cases r) (auto dest: syncDim_flag)
next
  case (O_setSwitchState v)
  with assms show ?thesis
    by (cases r) (auto dest: syncDim_flag)
next
  case (O_controlDisconnect v)
  with assms show ?thesis
    by (cases r) (auto dest: syncDim_flag)
next
  case (O_disconnect v)
  with assms show ?thesis
    by (cases r) (auto dest: syncDim_flag)
next
  case (O_setDim v)
  with assms show ?thesis
    by (cases r) auto
qed (use assms in auto)

lemma step_other_flag:
  assumes "step r p d s = (s1, p1, cs)" and "\<not> switchInFlight p"
  shows "\<not> switchInFlight p1 \<and> activeConnection s1 = activeConnection s"
proof (cases p)
  case Done
  with assms show ?thesis by (cases r) auto
next
  case (D_setOnoff x)
  with assms show ?thesis by (cases r) auto
next
  case D_setSwitch
  with assms show ?thesis by (cases r) auto
qed (use assms in auto)

lemma start_flag:
  "start rq d s = (s1, p1, cs) \<Longrightarrow>
     (switchInFlight p1 \<and> \<not> activeConnection s \<and> activeConnection s1)
     \<or> (\<not> switchInFlight p1 \<and> activeConnection s1 = activeConnection s)"
  by (cases rq)
    (auto simp add: onCapabilityOnoff_start_def onCapabilityDim_start_def Let_def
      split: if_splits)

lemma exec1_oneSwitch:
  assumes "oneSwitch c"
  shows "oneSwitch (exec1 a c)"
proof -
  obtain s ts tr where c: "c = (s, ts, tr)" by (metis prod_cases3)
  from assms c have inv: "switchCount ts = 0 \<or> (switchCount ts = 1 \<and> activeConnection s)"
    by (simp add: oneSwitch_def)
  show ?thesis
  proof (cases a)
    case (Invoke d rq)
    obtain s1 p1 cs where st: "start rq d s = (s1, p1, cs)" by (metis prod_cases3)
    from start_flag [OF st] inv show ?thesis
      by (auto simp add: c Invoke st oneSwitch_def switchCount_append)
  next
    case (Deliver i r)
    show ?thesis
    proof (cases "i < length ts")
      case False
      with assms show ?thesis by (simp add: c Deliver)
    next
      case True
      obtain s1 p1 cs where st: "step r (snd (ts ! i)) (fst (ts ! i)) s = (s1, p1, cs)"
        by (metis prod_cases3)
      note upd = switchCount_update [OF True, of "(fst (ts ! i), p1)"]
      show ?thesis
      proof (cases "switchInFlight (snd (ts ! i))")
        case sw: True
        from step_switch_flag [OF st sw] upd inv sw show ?thesis
          by (auto simp add: c Deliver True st oneSwitch_def)
      next
        case nsw: False
        from step_other_flag [OF st nsw] upd inv nsw show ?thesis
          by (auto simp add: c Deliver True st oneSwitch_def)
      qed
    qed
  qed
qed

lemma exec_oneSwitch: "oneSwitch c \<Longrightarrow> oneSwitch (exec as c)"
  by (induction as arbitrary: c) (simp_all add: exec1_oneSwitch)

lemma reachable_oneSwitch: "oneSwitch (exec as (s0, [], tr0))"
  by (rule exec_oneSwitch) (simp add: oneSwitch_def switchCount_def)

text \<open>
  Whatever the interleaving, while a switch command is in flight it is the only one and
  \<^verbatim>\<open>activeConnection\<close> is set.
\<close>

lemma switch_in_flight_flag:
  assumes "exec as (s0, [], tr0) = (s, ts, tr)" and "t \<in> set ts" and "switchInFlight (snd t)"
  shows "activeConnection s \<and> switchCount ts = 1"
proof -
  from assms(2,3) have "filter (\<lambda>t. switchInFlight (snd t)) ts \<noteq> []"
    by (auto simp add: filter_empty_conv)
  then have "switchCount ts \<noteq> 0" by (simp add: switchCount_def)
  with reachable_oneSwitch [of as s0 tr0] assms(1) show ?thesis
    by (simp add: oneSwitch_def)
qed

text \<open>
  The half of the serialization that the driver keeps: a switch request issued while a
  switch command is in flight makes no call and changes nothing.
\<close>

lemma overlapping_switch_dropped:
  assumes "exec as (s0, [], tr0) = (s, ts, tr)" and "t \<in> set ts" and "switchInFlight (snd t)"
  shows "exec1 (Invoke d (OnOff v)) (s, ts, tr) = (s, ts @ [(d, Done)], tr)"
  using switch_in_flight_flag [OF assms] by (simp add: onCapabilityOnoff_start_def)

lemma start_dimflag:
  "snd (start rq d (s\<lparr>activeConnectionDim := b\<rparr>)) = snd (start rq d s)
   \<and> (fst (start rq d (s\<lparr>activeConnectionDim := b\<rparr>)))\<lparr>activeConnectionDim := c\<rparr>
       = (fst (start rq d s))\<lparr>activeConnectionDim := c\<rparr>"
  by (cases rq)
    (simp_all add: onCapabilityOnoff_start_def onCapabilityDim_start_def switchCloud_call_def
      Let_def)

lemma syncDim_dimflag:
  "snd (syncDim v d (s\<lparr>activeConnectionDim := b\<rparr>)) = snd (syncDim v d s)
   \<and> (fst (syncDim v d (s\<lparr>activeConnectionDim := b\<rparr>)))\<lparr>activeConnectionDim := c\<rparr>
       = (fst (syncDim v d s))\<lparr>activeConnectionDim := c\<rparr>"
  by (simp add: syncDim_def)

lemma switchBLE_start_dimflag:
  "snd (switchBLE_start v d (s\<lparr>activeConnectionDim := b\<rparr>)) = snd (switchBLE_start v d s)
   \<and> (fst (switchBLE_start v d (s\<lparr>activeConnectionDim := b\<rparr>)))\<lparr>activeConnectionDim := c\<rparr>
       = (fst (switchBLE_start v d s))\<lparr>activeConnectionDim := c\<rparr>"
  by (simp add: switchBLE_start_def getKeys_start_def findCrownstone_call_def Let_def)

text \<open>
  No block reads \<^verbatim>\<open>activeConnectionDim\<close>: with another value of the flag a block
  makes the same calls, suspends at the same place and leaves the same state, the flag
  itself apart.
\<close>

lemma step_dimflag:
  "snd (step r p d (s\<lparr>activeConnectionDim := b\<rparr>)) = snd (step r p d s)
   \<and> (fst (step r p d (s\<lparr>activeConnectionDim := b\<rparr>)))\<lparr>activeConnectionDim := c\<rparr>
       = (fst (step r p d s))\<lparr>activeConnectionDim := c\<rparr>"
proof (cases p)
  case (O_getKeys v k)
  then show ?thesis
    by (cases k; cases r) (simp_all add: Let_def findCrownstone_call_def)
next
  case (O_switchCloud v)
  then show ?thesis
    by (cases r) (simp_all add: syncDim_dimflag switchBLE_start_dimflag)
next
  case (O_find v)
  then show ?thesis
    by (cases r) (simp_all split: option.splits)
next
  case (O_connect v)
  then show ?thesis
    by (cases r) (simp_all add: syncDim_dimflag)
next
  case (O_setSwitchState v)
  then show ?thesis
    by (cases r) (simp_all add: syncDim_dimflag)
next
  case (O_controlDisconnect v)
  then show ?thesis
    by (cases r) (simp_all add: syncDim_dimflag)
next
  case (O_disconnect v)
  then show ?thesis
    by (cases r) (simp_all add: syncDim_dimflag)
next
  case (O_setDim v)
  then show ?thesis
    by (cases r) simp_all
next
  case Done
  then show ?thesis by (cases r) simp_all
next
  case (D_setOnoff x)
  then show ?thesis by (cases r) simp_all
next
  case D_setSwitch
  then show ?thesis by (cases r) simp_all
qed

text \<open>
  Claim C9. In every configuration reached by interleaving handlers, a dim request issued
  while a switch command is in flight makes no call and changes nothing: the guard of the
  dim handler reads \<^verbatim>\<open>activeConnection\<close>. The dim flag is set when a dim request is
  dispatched and cleared when its cloud call is fulfilled, and no block of either handler
  depends on its value.
\<close>

theorem dim_guard_reads_switch_flag:
  "(exec as (s0, [], tr0) = (s, ts, tr) \<and> t \<in> set ts \<and> switchInFlight (snd t) \<longrightarrow>
      exec1 (Invoke d (Dim v)) (s, ts, tr) = (s, ts @ [(d, Done)], tr))
   \<and> (activeConnection s \<longrightarrow> start (Dim v) d s = (s, Done, []))
   \<and> snd (start rq d (s\<lparr>activeConnectionDim := b\<rparr>)) = snd (start rq d s)
   \<and> (fst (start rq d (s\<lparr>activeConnectionDim := b\<rparr>)))\<lparr>activeConnectionDim := c\<rparr>
       = (fst (start rq d s))\<lparr>activeConnectionDim := c\<rparr>
   \<and> snd (step r p d (s\<lparr>activeConnectionDim := b\<rparr>)) = snd (step r p d s)
   \<and> (fst (step r p d (s\<lparr>activeConnectionDim := b\<rparr>)))\<lparr>activeConnectionDim := c\<rparr>
       = (fst (step r p d s))\<lparr>activeConnectionDim := c\<rparr>
   \<and> (\<not> activeConnection s \<and> loginState s \<longrightarrow> activeConnectionDim (fst (start (Dim v) d s)))
   \<and> step Resolved D_setSwitch d s = (s\<lparr>activeConnectionDim := False\<rparr>, Done, [])"
proof -
  have dropped: "exec as (s0, [], tr0) = (s, ts, tr) \<and> t \<in> set ts \<and> switchInFlight (snd t) \<longrightarrow>
      exec1 (Invoke d (Dim v)) (s, ts, tr) = (s, ts @ [(d, Done)], tr)"
  proof
    assume h: "exec as (s0, [], tr0) = (s, ts, tr) \<and> t \<in> set ts \<and> switchInFlight (snd t)"
    then have "activeConnection s" using switch_in_flight_flag [of as s0 tr0 s ts tr t] by blast
    then show "exec1 (Invoke d (Dim v)) (s, ts, tr) = (s, ts @ [(d, Done)], tr)"
      by (simp add: onCapabilityDim_start_def)
  qed
  have guard: "activeConnection s \<longrightarrow> start (Dim v) d s = (s, Done, [])"
    by (simp add: onCapabilityDim_start_def)
  have set_flag:
    "\<not> activeConnection s \<and> loginState s \<longrightarrow> activeConnectionDim (fst (start (Dim v) d s))"
    by (simp add: onCapabilityDim_start_def Let_def)
  have cleared: "step Resolved D_setSwitch d s = (s\<lparr>activeConnectionDim := False\<rparr>, Done, [])"
    by simp
  from dropped guard set_flag cleared
    start_dimflag [where rq = rq and d = d and s = s and b = b and c = c]
    step_dimflag [where r = r and p = p and d = d and s = s and b = b and c = c]
  show ?thesis by blast
qed

theorem dim_guard_reads_switch_flag_witness:
  "exec [Invoke 0 (OnOff True), Invoke 1 (Dim (Fin (1 / 2)))] (home, [], []) =
     (home\<lparr>activeConnection := True\<rparr>, [(0, O_switchCloud True), (1, Done)],
      [CloudTurnOn ''stone-1''])
   \<and> activeConnectionDim (fst (start (Dim (Fin (1 / 2))) 1 home))"
proof -
  let ?c = "(home\<lparr>activeConnection := True\<rparr>, [(0, O_switchCloud True)],
      [CloudTurnOn ''stone-1''])"
  have e: "exec [Invoke 0 (OnOff True)] (home, [], []) = ?c"
    by (simp add: onCapabilityOnoff_start_def switchCloud_call_def home_def plug_def Let_def)
  have m: "(0, O_switchCloud True) \<in> set [(0 :: nat, O_switchCloud True)]" by simp
  have w: "switchInFlight (snd (0 :: nat, O_switchCloud True))" by simp
  have g: "\<not> activeConnection home \<and> loginState home" by (simp add: home_def)
  from dim_guard_reads_switch_flag [of "[Invoke 0 (OnOff True)]" home "[]"
      "home\<lparr>activeConnection := True\<rparr>" "[(0, O_switchCloud True)]" "[CloudTurnOn ''stone-1'']"
      "(0, O_switchCloud True)" 1 "Fin (1 / 2)"] e m w
  have x: "exec1 (Invoke 1 (Dim (Fin (1 / 2)))) ?c =
      (home\<lparr>activeConnection := True\<rparr>, [(0, O_switchCloud True)] @ [(1, Done)],
       [CloudTurnOn ''stone-1''])"
    by blast
  have y: "exec [Invoke 0 (OnOff True), Invoke 1 (Dim (Fin (1 / 2)))] (home, [], [])
      = exec1 (Invoke 1 (Dim (Fin (1 / 2)))) (exec [Invoke 0 (OnOff True)] (home, [], []))"
    by simp
  from dim_guard_reads_switch_flag [of "[]" home "[]" home "[]" "[]" "(0, Done)" 1 "Fin (1 / 2)"] g
  have z: "activeConnectionDim (fst (start (Dim (Fin (1 / 2))) 1 home))" by blast
  from x y e z show ?thesis by simp
qed

lemma dimPercentage_overlapping:
  "dimPercentage (toDouble (1 / 2)) = Fin 50"
  "dimPercentage (toDouble (4 / 5)) = Fin 80"
  by (simp_all add: dimPercentage_def toDouble_def exponentOf_def expUp.simps expDown.simps
      pow2_def roundHalfEven_def Let_def split del: if_split)

text \<open>
  Claim C1. The claim asks that of two overlapping dim requests the second be dropped.
  Here two dim requests for the lamp, with the fractions 0.5 and 0.8, overlap with no
  switch command in flight: both pass the guard, both set the on-state, and both cloud
  calls are made and outstanding at the same time.
\<close>

theorem overlapping_dim_requests_both_dispatched:
  "exec [Invoke 1 (Dim (toDouble (1 / 2))), Invoke 1 (Dim (toDouble (4 / 5))),
         Deliver 0 Resolved, Deliver 1 Resolved]
       (home, [], []) =
     (home\<lparr>activeConnectionDim := True\<rparr>, [(1, D_setSwitch), (1, D_setSwitch)],
      [SetCapabilityValue 1 ''onoff'' (CBool True), SetCapabilityValue 1 ''onoff'' (CBool True),
       CloudSetSwitch ''stone-2'' (Fin 50), CloudSetSwitch ''stone-2'' (Fin 80)])"
  by (simp add: home_def lamp_def onCapabilityDim_start_def dimPercentage_overlapping Let_def)

section \<open>Properties of the presence trigger and condition\<close>

text \<open>
  Claim C5. An event that is not an enter event (an exit event in particular) calls the
  trigger not at all and starts no flow. An enter event calls the trigger exactly once,
  and a flow configured for a room is started by it exactly when both the id and the name
  of that room equal those of the event's room; a flow whose id or name differs is not
  started, and nothing else happens.
\<close>

theorem presence_trigger_fires_on_matching_enter:
  "(ev_type data \<noteq> ''presence'' \<or> ev_subType data \<noteq> ''enterLocation'' \<longrightarrow>
      eventHandler data = [] \<and> flowsFired flows data = [])
   \<and> (ev_type data = ''presence'' \<and> ev_subType data = ''enterLocation'' \<longrightarrow>
      length (eventHandler data) = 1
      \<and> flowsFired [args] data =
          (if room_id args = room_id (ev_location data)
              \<and> room_name args = room_name (ev_location data)
           then [args] else [])
      \<and> count_list (flowsFired flows data) args =
          (if room_id args = room_id (ev_location data)
              \<and> room_name args = room_name (ev_location data)
           then count_list flows args else 0))"
proof -
  have cnt: "count_list (filter P xs) x = (if P x then count_list xs x else 0)"
    for P and xs :: "room list" and x
    by (induction xs) auto
  show ?thesis
    by (auto simp add: eventHandler_def flowsFired_def triggerRunListener_def cnt)
qed

theorem presence_trigger_fires_on_matching_enter_witness:
  "flowsFired [kitchen] enterKitchen = [kitchen]
   \<and> flowsFired [kitchen] exitKitchen = []
   \<and> flowsFired [kitchen\<lparr>room_id := ''B''\<rparr>] enterKitchen = []
   \<and> flowsFired [kitchen\<lparr>room_name := ''Hall''\<rparr>] enterKitchen = []"
proof -
  have en: "ev_type enterKitchen = ''presence'' \<and> ev_subType enterKitchen = ''enterLocation''"
    by (simp add: enterKitchen_def)
  have ex: "ev_type exitKitchen \<noteq> ''presence'' \<or> ev_subType exitKitchen \<noteq> ''enterLocation''"
    by (simp add: exitKitchen_def)
  have loc: "ev_location enterKitchen = kitchen" by (simp add: enterKitchen_def)
  from presence_trigger_fires_on_matching_enter [of enterKitchen _ kitchen] en
    presence_trigger_fires_on_matching_enter [of exitKitchen "[kitchen]"] ex
    presence_trigger_fires_on_matching_enter [of enterKitchen _ "kitchen\<lparr>room_id := ''B''\<rparr>"]
    presence_trigger_fires_on_matching_enter [of enterKitchen _ "kitchen\<lparr>room_name := ''Hall''\<rparr>"]
  show ?thesis
    by (simp add: loc kitchen_def)
qed






section \<open>Properties of the connections and the synchronization\<close>

text \<open>
  \<^verbatim>\<open>setupConnections\<close> has no path that throws, so the \<^verbatim>\<open>catch\<close> around its call
  in \<^verbatim>\<open>synchronizeCloud\<close> and in \<^verbatim>\<open>setSettings\<close> is never entered. It touches no
  cache, and leaves the login flag set exactly when both logins were accepted.
\<close>

lemma setupConnections_returns:
  "fst (snd (setupConnections env email password a)) = Returned
   \<and> slowCache (fst (setupConnections env email password a)) = slowCache a
   \<and> fastCache (fst (setupConnections env email password a)) = fastCache a
   \<and> loggedIn (fst (setupConnections env email password a))
       = (cloud_accepts env email password \<and> eventServer_accepts env email password)"
  by (simp add: setupConnections_def mirror_login_def serverEvents_login_def Let_def)

text \<open>
  A failed login reaches the settings flow as the boolean false, and
  \<^verbatim>\<open>setSettings\<close> calls neither the mirror pass nor the mapper pass.
\<close>

lemma setSettings_login_failure:
  assumes "\<not> falsy email" and "\<not> falsy password"
    and "\<not> (cloud_accepts env email password \<and> eventServer_accepts env email password)"
  shows "fst (snd (setSettings env email password a)) = False
     \<and> slowCache (fst (setSettings env email password a)) = slowCache a
     \<and> fastCache (fst (setSettings env email password a)) = fastCache a
     \<and> MirrorGetAll \<notin> set (snd (snd (setSettings env email password a)))
     \<and> MapperMapAll \<notin> set (snd (snd (setSettings env email password a)))"
  using assms
  by (auto simp add: setSettings_def setupConnections_def mirror_login_def
      serverEvents_login_def Let_def)

text \<open>
  When it is the cloud that rejects the login and no session is held,
  \<^verbatim>\<open>synchronizeCloud\<close> goes on to the mirror pass all the same, which then fetches
  nothing: the raw cache stays as it is, and the fast cache too unless the mapper pass
  runs and the fast cache was not the projection of the raw cache.
\<close>

lemma synchronizeCloud_cloud_login_rejected:
  assumes "\<not> cloud_accepts env (settings_email a) (settings_password a)"
    and "\<not> cloudSession a"
  shows "slowCache (fst (synchronizeCloud env a)) = slowCache a
     \<and> fastCache (fst (synchronizeCloud env a))
         = (if pull_failure_rejects env then fastCache a else projection env (slowCache a))
     \<and> MirrorGetAll \<in> set (snd (snd (synchronizeCloud env a)))"
  using assms
  by (simp add: synchronizeCloud_def setupConnections_def mirror_login_def mirror_getAll_def
      mapper_mapAll_def Let_def)

text \<open>
  Claim C4. The claim asks that a failed login leave both caches untouched. Here the
  login fails at its second step: the cloud accepts the credentials and the event server
  cannot be reached. \<^verbatim>\<open>setupConnections\<close> leaves the login flag false, and
  \<^verbatim>\<open>setSettings\<close> reports false; but \<^verbatim>\<open>synchronizeCloud\<close> does not stop, and the
  mirror pass, which holds a session, and the mapper pass fill the two empty caches.
\<close>

theorem synchronizeCloud_after_failed_login:
  "synchronizeCloud eventServerDown freshApp =
     (freshApp\<lparr>slowCache := [''sphere-1''], fastCache := [''sphere-1''], cloudSession := True\<rparr>,
      Returned,
      [MirrorLogin (Some ''user@example.org'') (Some ''secret''),
       ServerEventsLogin (Some ''user@example.org'') (Some ''secret''),
       MirrorGetAll, MapperMapAll, UpdateDevices])
   \<and> loggedIn (fst (synchronizeCloud eventServerDown freshApp)) = False
   \<and> fst (snd (setSettings eventServerDown (Some ''user@example.org'') (Some ''secret'')
          freshApp)) = False"
  by (simp add: synchronizeCloud_def setSettings_def setupConnections_def mirror_login_def
      serverEvents_login_def mirror_getAll_def mapper_mapAll_def falsy_def eventServerDown_def
      freshApp_def Let_def)


end
